theory Spec2Isabelle
  imports Main "HOL-Library.Multiset"
begin

section \<open>Platform string operations used by app.js\<close>

text \<open>
  A JavaScript string is modelled as a \<^typ>\<open>string\<close>, read as the UTF-8 bytes of
  well-formed text. The operations below are the built-ins that app.js calls.
\<close>

datatype js_error =
  TypeError | URIError | SyntaxError | PersistenceFailure | AcquisitionFailure | EngineRejection

definition startsWith :: "string \<Rightarrow> string \<Rightarrow> bool" where
  "startsWith s p = (take (length p) s = p)"

text \<open>
  The white space that \<open>trim\<close> and \<open>parseInt\<close> skip: the code points U+0009 to U+000D,
  U+0020, U+00A0, U+1680, U+2000 to U+200A, U+2028, U+2029, U+202F, U+205F, U+3000 and
  U+FEFF, each as its UTF-8 bytes.
\<close>

definition whiteSpace :: "string list" where
  "whiteSpace =
     [[CHR 0x09], [CHR 0x0A], [CHR 0x0B], [CHR 0x0C], [CHR 0x0D], [CHR 0x20],
      [CHR 0xC2, CHR 0xA0], [CHR 0xE1, CHR 0x9A, CHR 0x80],
      [CHR 0xE2, CHR 0x80, CHR 0x80], [CHR 0xE2, CHR 0x80, CHR 0x81],
      [CHR 0xE2, CHR 0x80, CHR 0x82], [CHR 0xE2, CHR 0x80, CHR 0x83],
      [CHR 0xE2, CHR 0x80, CHR 0x84], [CHR 0xE2, CHR 0x80, CHR 0x85],
      [CHR 0xE2, CHR 0x80, CHR 0x86], [CHR 0xE2, CHR 0x80, CHR 0x87],
      [CHR 0xE2, CHR 0x80, CHR 0x88], [CHR 0xE2, CHR 0x80, CHR 0x89],
      [CHR 0xE2, CHR 0x80, CHR 0x8A], [CHR 0xE2, CHR 0x80, CHR 0xA8],
      [CHR 0xE2, CHR 0x80, CHR 0xA9], [CHR 0xE2, CHR 0x80, CHR 0xAF],
      [CHR 0xE2, CHR 0x81, CHR 0x9F], [CHR 0xE3, CHR 0x80, CHR 0x80],
      [CHR 0xEF, CHR 0xBB, CHR 0xBF]]"

text \<open>The number of bytes of the pattern that the string starts with, 0 if with none.\<close>

definition leading :: "string list \<Rightarrow> string \<Rightarrow> nat" where
  "leading patterns s =
     (case List.find (startsWith s) patterns of Some w \<Rightarrow> length w | None \<Rightarrow> 0)"

text \<open>
  Dropping every leading pattern: \<open>k\<close> counts the bytes still to drop of the pattern
  found last.
\<close>

fun dropLeading :: "string list \<Rightarrow> nat \<Rightarrow> string \<Rightarrow> string" where
  "dropLeading patterns k [] = []"
| "dropLeading patterns k (c # cs) =
     (if 0 < k then dropLeading patterns (k - 1) cs
      else if leading patterns (c # cs) = 0 then c # cs
      else dropLeading patterns (leading patterns (c # cs) - 1) cs)"

definition trimStart :: "string \<Rightarrow> string" where
  "trimStart s = dropLeading whiteSpace 0 s"

definition trim :: "string \<Rightarrow> string" where
  "trim s = rev (dropLeading (map rev whiteSpace) 0 (rev (trimStart s)))"

fun includes_str :: "string \<Rightarrow> string \<Rightarrow> bool" where
  "includes_str [] p = (p = [])"
| "includes_str (c # cs) p = (startsWith (c # cs) p \<or> includes_str cs p)"

text \<open>
  \<open>toLowerCase\<close> on the ASCII letters. Of the other letters only U+212A and U+0130 have
  ASCII letters in their lower case (\<open>k\<close>, and \<open>i\<close> followed by U+0307), which cannot
  complete one of the command words that app.js looks for in the result.
\<close>

definition lowerChar :: "char \<Rightarrow> char" where
  "lowerChar c =
     (case map_of (zip ''ABCDEFGHIJKLMNOPQRSTUVWXYZ'' ''abcdefghijklmnopqrstuvwxyz'') c of
        Some l \<Rightarrow> l | None \<Rightarrow> c)"

definition toLowerCase :: "string \<Rightarrow> string" where
  "toLowerCase s = map lowerChar s"

text \<open>\<open>s.split(sep)\<close> for a one-character separator: the result is never empty.\<close>

fun split :: "char \<Rightarrow> string \<Rightarrow> string list" where
  "split sep [] = [[]]"
| "split sep (c # cs) =
     (if c = sep then [] # split sep cs
      else (case split sep cs of p # ps \<Rightarrow> (c # p) # ps | [] \<Rightarrow> [[c]]))"

text \<open>\<open>xs[i]\<close> on an array: \<open>undefined\<close> (here \<open>None\<close>) out of range.\<close>

definition at :: "'a list \<Rightarrow> nat \<Rightarrow> 'a option" where
  "at xs i = (if i < length xs then Some (xs ! i) else None)"

text \<open>\<open>s.replace(/\/+/g, ' ')\<close>: every maximal run of slashes becomes one space.\<close>

fun replaceSlashRuns :: "string \<Rightarrow> string" where
  "replaceSlashRuns [] = []"
| "replaceSlashRuns (c # cs) =
     (if c = CHR ''/'' then
        (case cs of
           d # _ \<Rightarrow> if d = CHR ''/'' then replaceSlashRuns cs else CHR '' '' # replaceSlashRuns cs
         | [] \<Rightarrow> [CHR '' ''])
      else c # replaceSlashRuns cs)"

definition hexVal :: "char \<Rightarrow> nat option" where
  "hexVal c = map_of
     [(CHR ''0'', 0), (CHR ''1'', 1), (CHR ''2'', 2), (CHR ''3'', 3), (CHR ''4'', 4),
      (CHR ''5'', 5), (CHR ''6'', 6), (CHR ''7'', 7), (CHR ''8'', 8), (CHR ''9'', 9),
      (CHR ''a'', 10), (CHR ''b'', 11), (CHR ''c'', 12), (CHR ''d'', 13), (CHR ''e'', 14),
      (CHR ''f'', 15), (CHR ''A'', 10), (CHR ''B'', 11), (CHR ''C'', 12), (CHR ''D'', 13),
      (CHR ''E'', 14), (CHR ''F'', 15)] c"

definition digitVal :: "nat \<Rightarrow> char \<Rightarrow> nat option" where
  "digitVal radix c = (case hexVal c of Some d \<Rightarrow> if d < radix then Some d else None | None \<Rightarrow> None)"

text \<open>
  The number value of a natural number: the nearest double, ties to the even mantissa,
  and \<open>None\<close> for infinity. Below \<open>2 ^ 53\<close> it is the number itself.
\<close>

fun bitLength :: "nat \<Rightarrow> nat" where
  "bitLength n = (if n = 0 then 0 else Suc (bitLength (n div 2)))"

declare bitLength.simps [simp del]

definition toDouble :: "nat \<Rightarrow> nat option" where
  "toDouble n =
     (if bitLength n \<le> 53 then Some n
      else
        (let e = bitLength n - 53;
             q = n div 2 ^ e;
             r = n mod 2 ^ e;
             q' = (if 2 ^ (e - 1) < r \<or> (r = 2 ^ (e - 1) \<and> odd q) then q + 1 else q)
         in if 2 ^ 1024 \<le> q' * 2 ^ e then None else Some (q' * 2 ^ e)))"

text \<open>
  \<open>parseInt(x)\<close> with no radix, for \<open>x\<close> a string or \<open>undefined\<close>: leading white space,
  an optional sign, an optional \<open>0x\<close> prefix, then the longest run of digits, read as an
  integer and rounded to a number. A negative zero is \<open>Finite 0\<close>.
\<close>

datatype number = NaN | Finite int | PlusInfinity | MinusInfinity

definition parseInt :: "string option \<Rightarrow> number" where
  "parseInt x =
     (case x of
        None \<Rightarrow> NaN
      | Some s \<Rightarrow>
          (let t = trimStart s;
               neg = startsWith t ''-'';
               u = (if startsWith t ''-'' \<or> startsWith t ''+'' then drop 1 t else t);
               hex = (startsWith u ''0x'' \<or> startsWith u ''0X'');
               radix = (if hex then 16 else 10);
               v = (if hex then drop 2 u else u);
               ds = takeWhile (\<lambda>c. digitVal radix c \<noteq> None) v;
               n = foldl (\<lambda>a c. a * radix + the (digitVal radix c)) 0 ds
           in if ds = [] then NaN
              else (case toDouble n of
                      None \<Rightarrow> if neg then MinusInfinity else PlusInfinity
                    | Some d \<Rightarrow> Finite (if neg then - int d else int d))))"

text \<open>
  \<open>decodeURIComponent\<close>: first the escapes are read (a \<open>%\<close> must be followed by two hex
  digits), then every escaped octet of 128 or more must start a well-formed UTF-8
  sequence made of escapes. Anything else throws \<open>URIError\<close>.
\<close>

datatype token = Lit char | Esc nat

fun tokens :: "string \<Rightarrow> token list option" where
  "tokens [] = Some []"
| "tokens (c # cs) =
     (if c \<noteq> CHR ''%'' then map_option ((#) (Lit c)) (tokens cs)
      else (case cs of
              h # l # rest \<Rightarrow>
                (case (hexVal h, hexVal l) of
                   (Some a, Some b) \<Rightarrow> map_option ((#) (Esc (16 * a + b))) (tokens rest)
                 | _ \<Rightarrow> None)
            | _ \<Rightarrow> None))"

definition escOctet :: "token \<Rightarrow> nat option" where
  "escOctet t = (case t of Esc b \<Rightarrow> Some b | Lit _ \<Rightarrow> None)"

definition continuationCount :: "nat \<Rightarrow> nat" where
  "continuationCount b =
     (if 194 \<le> b \<and> b < 224 then 1 else if 224 \<le> b \<and> b < 240 then 2
      else if 240 \<le> b \<and> b < 245 then 3 else 0)"

definition wellFormedTail :: "nat \<Rightarrow> nat list \<Rightarrow> bool" where
  "wellFormedTail b os =
     (case os of
        [] \<Rightarrow> False
      | o1 # rest \<Rightarrow>
          (if b = 224 then 160 else if b = 240 then 144 else 128) \<le> o1 \<and>
          o1 \<le> (if b = 237 then 159 else if b = 244 then 143 else 191) \<and>
          list_all (\<lambda>k. 128 \<le> k \<and> k \<le> 191) rest)"

function utf8 :: "token list \<Rightarrow> string option" where
  "utf8 [] = Some []"
| "utf8 (Lit c # ts) = map_option ((#) c) (utf8 ts)"
| "utf8 (Esc b # ts) =
     (if b < 128 then map_option ((#) (char_of b)) (utf8 ts)
      else (let n = continuationCount b; os = map escOctet (take n ts)
            in if n = 0 \<or> length os \<noteq> n \<or> None \<in> set os \<or> \<not> wellFormedTail b (map the os)
               then None
               else map_option ((@) (map char_of (b # map the os))) (utf8 (drop n ts))))"
  by pat_completeness auto
termination
  by (relation "measure length") auto

definition decodeURIComponent :: "string \<Rightarrow> js_error + string" where
  "decodeURIComponent s =
     (case tokens s of
        None \<Rightarrow> Inl URIError
      | Some ts \<Rightarrow> (case utf8 ts of None \<Rightarrow> Inl URIError | Some d \<Rightarrow> Inr d))"

text \<open>The decimal digits of a number, as a template literal prints it.\<close>

fun digits :: "nat \<Rightarrow> string" where
  "digits n =
     (if n < 10 then [''0123456789'' ! n] else digits (n div 10) @ [''0123456789'' ! (n mod 10)])"

declare digits.simps [simp del]

section \<open>Steps\<close>

text \<open>
  A step parameter is a number (the intent resolver writes numbers; a width can be
  infinite, \<open>Infinite True\<close> the negative infinity) or a string (the editor writes
  the text of its inputs).
\<close>

datatype param = Num int | Infinite bool | Str string

record step =
  type :: string
  params :: "param list"

section \<open>Intent resolution: the custom URI\<close>

definition parseWebWamiUrl :: "string \<Rightarrow> js_error + (string \<times> step list) option" where
  "parseWebWamiUrl url =
     (let urlPath = drop (length ''web+wami://'') url in
      if urlPath = [] \<or> trim urlPath = [] then Inr None
      else
        (let pathParts = split (CHR ''/'') (case split (CHR ''?'') urlPath of p # _ \<Rightarrow> p | [] \<Rightarrow> []);
             mainCommand = toLowerCase (case pathParts of p # _ \<Rightarrow> p | [] \<Rightarrow> [])
         in case decodeURIComponent urlPath of
              Inl e \<Rightarrow> Inl e
            | Inr decoded \<Rightarrow>
                (let title = trim (replaceSlashRuns decoded);
                     steps =
                       (if includes_str mainCommand ''rotate'' then [\<lparr>type = ''rotate'', params = [Num 90]\<rparr>]
                        else if includes_str mainCommand ''flip'' then [\<lparr>type = ''flip'', params = []\<rparr>]
                        else if includes_str mainCommand ''paint'' then [\<lparr>type = ''paint'', params = [Num 5]\<rparr>]
                        else if includes_str mainCommand ''sepia'' then [\<lparr>type = ''sepia-tone'', params = [Num 80]\<rparr>]
                        else if includes_str mainCommand ''blur'' then [\<lparr>type = ''blur'', params = [Num 3]\<rparr>]
                        else if includes_str mainCommand ''negate'' then [\<lparr>type = ''negate'', params = []\<rparr>]
                        else if includes_str mainCommand ''resize'' then
                          (let width = (case parseInt (at pathParts 1) of
                                          NaN \<Rightarrow> Num 1000
                                        | Finite w \<Rightarrow> if w = 0 then Num 1000 else Num w
                                        | PlusInfinity \<Rightarrow> Infinite False
                                        | MinusInfinity \<Rightarrow> Infinite True)
                           in [\<lparr>type = ''resize-width-if-larger'', params = [width]\<rparr>])
                        else [\<lparr>type = ''resize-width-if-larger'', params = [Num 1000]\<rparr>])
                 in Inr (Some (title, steps)))))"

section \<open>Flows, images and the session\<close>

text \<open>
  Flow ids are strings, so \<open>f.id + ''\<close> is \<open>f.id\<close>. The field \<open>id\<close> is
  \<open>flow_id\<close> here; an input image's \<open>file\<close> and \<open>name\<close> are \<open>file_in\<close> and \<open>name_in\<close>, an
  output image's \<open>name\<close> is \<open>name_out\<close>.
\<close>

record flow =
  flow_id :: string
  name :: string
  steps :: "step list"

type_synonym bytes = "nat list"

text \<open>
  A \<open>File\<close> has a name, a type and bytes, and its name is read-only. A \<open>Blob\<close> has a
  type and bytes, and app.js may hang a \<open>name\<close> property on it.
\<close>

datatype js_file = File string string bytes | Blob "string option" string bytes

fun file_name :: "js_file \<Rightarrow> string option" where
  "file_name (File n t b) = Some n"
| "file_name (Blob n t b) = n"

text \<open>A file system handle; \<open>fsHandlePromise\<close> holds what the promise resolves to.\<close>

type_synonym handle = nat

record input_image =
  file_in :: js_file
  name_in :: "string option"
  fsHandlePromise :: "handle option"

record output_image =
  blob :: js_file
  name_out :: string

record share_data =
  fileCount :: int
  fileNames :: "string list option"
  title :: "string option"
  url :: "string option"

text \<open>
  An entry of the transfer cache: \<open>json\<close> is what \<open>response.json()\<close> gives (\<open>None\<close>
  when the body is no manifest, and the call throws), \<open>blobType\<close> and \<open>blobBytes\<close> what
  \<open>response.blob()\<close> gives. A blob's type is a serialised MIME type or empty.
\<close>

record response =
  json :: "share_data option"
  blobType :: string
  blobBytes :: bytes

text \<open>
  The session: the module's variables, and the state of the collaborators that app.js
  reads and writes. Flow objects live in \<open>heap\<close>; the array behind \<open>flowsPromise\<close> and
  \<open>currentFlow\<close> hold references, as the flow objects are shared and updated in place.
  The arrays of images are held by one variable each and are plain lists.

  \<open>running\<close> is the class of that name on the document, \<open>runDisabled\<close> the \<open>disabled\<close>
  property of the run button, \<open>shownInputs\<close> and \<open>shownOutputs\<close> the names of the images on
  display, \<open>search\<close> the query of the URL, \<open>autoRunTimers\<close> the number of pending timers
  that will click the run button, and \<open>written\<close> the writes made through file system
  handles, oldest first. The pages, the editor and the viewer dialog are left out.
\<close>

type_synonym ref = nat

record session =
  heap :: "ref \<Rightarrow> flow"
  nextRef :: ref
  flows :: "ref list"
  currentFlow :: "ref option"
  currentId :: "string option"
  currentImages :: "input_image list"
  outputImages :: "output_image list"
  stored :: "flow list"
  storeOk :: bool
  cache :: "string \<Rightarrow> response option"
  search :: "(string \<times> string) list"
  running :: bool
  runDisabled :: bool
  shownInputs :: "string option list"
  shownOutputs :: "string list"
  autoRunTimers :: nat
  written :: "(handle \<times> js_file) list"

section \<open>The flow store and navigation\<close>

text \<open>
  Modelled from the spec: \<open>saveFlows\<close> of store.js, which is not among the sources. It
  persists the whole collection, in order, or fails.
\<close>

definition saveFlows :: "flow list \<Rightarrow> session \<Rightarrow> js_error option \<times> session" where
  "saveFlows fs s =
     (if storeOk s then (None, s\<lparr>stored := fs\<rparr>) else (Some PersistenceFailure, s))"

text \<open>The collection as \<open>saveFlows(flows)\<close> serialises it.\<close>

definition collection :: "session \<Rightarrow> flow list" where
  "collection s = map (heap s) (flows s)"

fun findIndex :: "('a \<Rightarrow> bool) \<Rightarrow> 'a list \<Rightarrow> nat option" where
  "findIndex P [] = None"
| "findIndex P (x # xs) = (if P x then Some 0 else map_option Suc (findIndex P xs))"

text \<open>\<open>xs[i] = v\<close> with \<open>i\<close> from \<open>findIndex\<close>: at \<open>-1\<close> no element changes.\<close>

definition assignAt :: "'a list \<Rightarrow> nat option \<Rightarrow> 'a \<Rightarrow> 'a list" where
  "assignAt xs i v = (case i of None \<Rightarrow> xs | Some k \<Rightarrow> xs[k := v])"

definition navigateToHome :: "session \<Rightarrow> session" where
  "navigateToHome s = s\<lparr>currentFlow := None, currentId := None\<rparr>"

text \<open>
  \<open>navigateToFlow\<close>: once the flow is found, line 59 looks its entry up in the sidebar
  with a selector built from the id, and marks it. The lookup gives an element, or
  \<open>null\<close> (then \<open>.classList\<close> throws \<open>TypeError\<close>), or throws \<open>SyntaxError\<close> on a selector that
  does not parse. Which of the three depends on the text of the id as a selector and on
  the sidebar that ui.js has rendered; it is the parameter \<open>selected\<close>.
\<close>

datatype lookup = Found | Missing | Invalid

definition navigateToFlow :: "lookup \<Rightarrow> string \<Rightarrow> session \<Rightarrow> js_error option \<times> session" where
  "navigateToFlow selected i s =
     (let s1 = s\<lparr>currentId := Some i,
                   currentFlow := List.find (\<lambda>r. i = flow_id (heap s r)) (flows s)\<rparr>
      in if currentFlow s1 = None then (None, navigateToHome s1)
         else (case selected of
                 Found \<Rightarrow> (None, s1)
               | Missing \<Rightarrow> (Some TypeError, s1)
               | Invalid \<Rightarrow> (Some SyntaxError, s1)))"



section \<open>The display of the input images\<close>

text \<open>
  Modelled from the spec: \<open>populateInputImages\<close> of ui.js, which is not among the sources.
  It shows the images it is given, and the run action is disabled for as long as no
  image is loaded: app.js itself enables the run button only at the end of a run, so
  that the button is enabled when images are loaded is the work of ui.js.
\<close>

definition populateInputImages :: "string option list \<Rightarrow> session \<Rightarrow> session" where
  "populateInputImages images s = s\<lparr>shownInputs := images, runDisabled := (images = [])\<rparr>"

section \<open>Editor sync\<close>

text \<open>
  \<open>handleFlowChange\<close>: \<open>formSteps\<close> and \<open>newName\<close> are what the editor's step elements and
  name field hold. With no current flow the first assignment throws.
\<close>

definition handleFlowChange :: "step list \<Rightarrow> string \<Rightarrow> session \<Rightarrow> js_error option \<times> session" where
  "handleFlowChange formSteps newName s =
     (case currentFlow s of
        None \<Rightarrow> (Some TypeError, s)
      | Some r \<Rightarrow>
          (let h = (heap s)(r := (heap s r)\<lparr>name := newName, steps := formSteps\<rparr>);
               flowIndex = findIndex (\<lambda>q. flow_id (h q) = flow_id (h r)) (flows s);
               s1 = s\<lparr>heap := h, flows := assignAt (flows s) flowIndex r\<rparr>
           in saveFlows (collection s1) s1))"

section \<open>Intent resolution: the flow\<close>

definition defaultSteps :: "step list" where
  "defaultSteps = [\<lparr>type = ''resize-width-if-larger'', params = [Num 1000]\<rparr>]"

definition determineFlowConfiguration :: "share_data \<Rightarrow> js_error + (string \<times> step list)" where
  "determineFlowConfiguration shareData =
     (let flowTitle = (case title shareData of
                         None \<Rightarrow> ''Shared Images Flow''
                       | Some t \<Rightarrow> if t = [] then ''Shared Images Flow'' else t)
      in case url shareData of
           None \<Rightarrow> Inr (flowTitle, defaultSteps)
         | Some u \<Rightarrow>
             if u = [] \<or> trim u = [] then Inr (flowTitle, defaultSteps)
             else if startsWith (trim u) ''web+wami://'' then
               (case parseWebWamiUrl (trim u) of
                  Inl e \<Rightarrow> Inl e
                | Inr None \<Rightarrow> Inr (flowTitle, defaultSteps)
                | Inr (Some (t, st)) \<Rightarrow> Inr (t, st))
             else Inr (flowTitle, defaultSteps))"

text \<open>
  \<open>createNewFlow\<close>: \<open>uid\<close> is what \<open>getUniqueId()\<close> of utils.js returns, \<open>selected\<close> what
  the sidebar lookup of the navigation gives.
\<close>

definition createNewFlow ::
  "string \<Rightarrow> lookup \<Rightarrow> string \<Rightarrow> step list \<Rightarrow> session \<Rightarrow> (js_error + ref) \<times> session" where
  "createNewFlow uid selected nm sts s =
     (let newFlow = \<lparr>flow_id = uid, name = (if nm = [] then ''Untitled flow'' else nm), steps = sts\<rparr>;
          r = nextRef s;
          s1 = s\<lparr>heap := (heap s)(r := newFlow), nextRef := Suc r, flows := flows s @ [r]\<rparr>
      in case saveFlows (collection s1) s1 of
           (Some e, s2) \<Rightarrow> (Inl e, s2)
         | (None, s2) \<Rightarrow>
             (case navigateToFlow selected uid s2 of
                (Some e, s3) \<Rightarrow> (Inl e, s3)
              | (None, s3) \<Rightarrow> (Inr r, s3)))"

definition createOrNavigateToFlow ::
  "string \<Rightarrow> lookup \<Rightarrow> string \<Rightarrow> step list \<Rightarrow> session \<Rightarrow> (js_error + ref) \<times> session" where
  "createOrNavigateToFlow uid selected flowTitle flowSteps s =
     (case List.find (\<lambda>r. name (heap s r) = flowTitle) (flows s) of
        Some existingFlow \<Rightarrow>
          (let h = (heap s)(existingFlow := (heap s existingFlow)\<lparr>steps := flowSteps\<rparr>);
               flowIndex = findIndex (\<lambda>q. flow_id (h q) = flow_id (h existingFlow)) (flows s);
               s1 = s\<lparr>heap := h, flows := assignAt (flows s) flowIndex existingFlow\<rparr>
           in case saveFlows (collection s1) s1 of
                (Some e, s2) \<Rightarrow> (Inl e, s2)
              | (None, s2) \<Rightarrow>
                  (case navigateToFlow selected (flow_id (heap s2 existingFlow)) s2 of
                     (Some e, s3) \<Rightarrow> (Inl e, s3)
                   | (None, s3) \<Rightarrow> (Inr existingFlow, s3)))
      | None \<Rightarrow> createNewFlow uid selected flowTitle flowSteps s)"

section \<open>Intent resolution: the shared images\<close>

definition getFileExtension :: "string \<Rightarrow> string" where
  "getFileExtension mimeType =
     (case map_of
             [(''image/jpeg'', ''jpg''), (''image/png'', ''png''), (''image/gif'', ''gif''),
              (''image/webp'', ''webp''), (''image/svg+xml'', ''svg'')] mimeType of
        Some e \<Rightarrow> e
      | None \<Rightarrow> ''jpg'')"

definition fileKey :: "nat \<Rightarrow> string" where
  "fileKey i = ''file-'' @ digits i"

text \<open>The body of the loading loop, for an index whose blob is in the cache.\<close>

definition sharedImage :: "share_data \<Rightarrow> nat \<Rightarrow> response \<Rightarrow> input_image" where
  "sharedImage shareData i fileResponse =
     (let fallback = ''shared-'' @ digits (i + 1) @ ''.'' @ getFileExtension (blobType fileResponse);
          fileName =
            (case fileNames shareData of
               None \<Rightarrow> fallback
             | Some ns \<Rightarrow>
                 (case at ns i of
                    None \<Rightarrow> fallback
                  | Some n \<Rightarrow> if n = [] then fallback else n))
      in \<lparr>file_in = File fileName (blobType fileResponse) (blobBytes fileResponse),
          name_in = Some fileName,
          fsHandlePromise = None\<rparr>)"

definition imagesToStore :: "(string \<Rightarrow> response option) \<Rightarrow> share_data \<Rightarrow> input_image list" where
  "imagesToStore shareCache shareData =
     List.map_filter (\<lambda>i. map_option (sharedImage shareData i) (shareCache (fileKey i)))
       [0..<nat (fileCount shareData)]"

text \<open>
  \<open>loadAndProcessSharedImages\<close>: with at least one image loaded, the images become the
  current ones and a click on the run button is scheduled.
\<close>

definition loadAndProcessSharedImages :: "share_data \<Rightarrow> session \<Rightarrow> session" where
  "loadAndProcessSharedImages shareData s =
     (let imgs = imagesToStore (cache s) shareData
      in if imgs = [] then s
         else (populateInputImages (map (\<lambda>i. file_name (file_in i)) imgs)
                 (s\<lparr>currentImages := imgs\<rparr>))
              \<lparr>autoRunTimers := Suc (autoRunTimers s)\<rparr>)"

definition cleanupShareCache :: "share_data \<Rightarrow> session \<Rightarrow> session" where
  "cleanupShareCache shareData s =
     s\<lparr>cache := foldl (\<lambda>c i. c(fileKey i := None)) ((cache s)(''shareData'' := None))
                  [0..<nat (fileCount shareData)]\<rparr>"

definition isShared :: "session \<Rightarrow> bool" where
  "isShared s = (map_of (search s) ''share'' = Some ''true'')"

text \<open>
  The \<open>try\<close> block of \<open>processShareTargetData\<close>: it returns early, throws, or runs to
  its end. The state it leaves is what the steps before the exit did. \<open>uid\<close> and
  \<open>selected\<close> are those of \<open>createNewFlow\<close>.
\<close>

datatype completion = Returned | Threw js_error | Completed

definition shareTargetTry :: "string \<Rightarrow> lookup \<Rightarrow> session \<Rightarrow> completion \<times> session" where
  "shareTargetTry uid selected s =
     (case cache s ''shareData'' of
        None \<Rightarrow> (Returned, s)
      | Some shareDataResponse \<Rightarrow>
          (case json shareDataResponse of
             None \<Rightarrow> (Threw SyntaxError, s)
           | Some shareData \<Rightarrow>
               if fileCount shareData \<le> 0 then (Returned, s)
               else
                 (case determineFlowConfiguration shareData of
                    Inl e \<Rightarrow> (Threw e, s)
                  | Inr (flowTitle, flowSteps) \<Rightarrow>
                      (case createOrNavigateToFlow uid selected flowTitle flowSteps s of
                         (Inl e, s1) \<Rightarrow> (Threw e, s1)
                       | (Inr targetFlow, s1) \<Rightarrow>
                           (Completed,
                            cleanupShareCache shareData (loadAndProcessSharedImages shareData s1))))))"

text \<open>
  \<open>processShareTargetData\<close>: a \<open>return\<close> inside the \<open>try\<close> block leaves the function; after
  the block's end or its \<open>catch\<close>, \<open>replaceState\<close> drops the query of the URL.
\<close>

definition processShareTargetData :: "string \<Rightarrow> lookup \<Rightarrow> session \<Rightarrow> session" where
  "processShareTargetData uid selected s =
     (if \<not> isShared s then s
      else (case shareTargetTry uid selected s of
              (Returned, s1) \<Rightarrow> s1
            | (Threw e, s1) \<Rightarrow> s1\<lparr>search := []\<rparr>
            | (Completed, s1) \<Rightarrow> s1\<lparr>search := []\<rparr>))"

text \<open>
  \<open>logProtocolActivation\<close> drops the \<open>url\<close> parameter of a protocol launch from the
  URL, and \<open>startApp\<close> runs it after the share processing.
\<close>

definition logProtocolActivation :: "session \<Rightarrow> session" where
  "logProtocolActivation s =
     (case map_of (search s) ''url'' of
        None \<Rightarrow> s
      | Some protocolUrl \<Rightarrow>
          if protocolUrl \<noteq> [] \<and> startsWith protocolUrl ''web+wami:''
          then s\<lparr>search := filter (\<lambda>p. fst p \<noteq> ''url'') (search s)\<rparr>
          else s)"

definition startApp :: "string \<Rightarrow> lookup \<Rightarrow> session \<Rightarrow> session" where
  "startApp uid selected s = logProtocolActivation (processShareTargetData uid selected s)"

section \<open>Running the current flow\<close>

text \<open>
  The argument of \<open>runFlow\<close>: \<open>currentImages.map\<close> gives a nameless file the image's
  name. app.js is a module, so the assignment throws on a \<open>File\<close>, whose name is
  read-only; the images before it keep their new names.
\<close>

definition withFileName :: "input_image \<Rightarrow> input_image option" where
  "withFileName i =
     (if file_name (file_in i) = None \<or> file_name (file_in i) = Some []
      then (case file_in i of
              File n t b \<Rightarrow> None
            | Blob n t b \<Rightarrow> Some (i\<lparr>file_in := Blob (name_in i) t b\<rparr>))
      else Some i)"

fun fileArguments :: "input_image list \<Rightarrow> js_error option \<times> input_image list" where
  "fileArguments [] = (None, [])"
| "fileArguments (i # rest) =
     (case withFileName i of
        None \<Rightarrow> (Some TypeError, i # rest)
      | Some i' \<Rightarrow> (case fileArguments rest of (e, rest') \<Rightarrow> (e, i' # rest')))"

text \<open>
  The click handler of the run button up to its \<open>await\<close>: it does nothing, throws, or
  calls the engine with the current flow and the files.
\<close>

datatype run_start = NoRun | RunThrew js_error | Awaiting "flow option" "js_file list"

definition runFlowButton_click :: "session \<Rightarrow> run_start \<times> session" where
  "runFlowButton_click s =
     (if currentImages s = [] then (NoRun, s)
      else
        (let s1 = s\<lparr>shownOutputs := [], running := True, runDisabled := True\<rparr>
         in case fileArguments (currentImages s1) of
              (Some e, imgs) \<Rightarrow> (RunThrew e, s1\<lparr>currentImages := imgs\<rparr>)
            | (None, imgs) \<Rightarrow>
                (Awaiting (map_option (heap s1) (currentFlow s1)) (map file_in imgs),
                 s1\<lparr>currentImages := imgs\<rparr>)))"



section \<open>Input images\<close>







section \<open>Saving in place\<close>

text \<open>
  The loop of the save handler. \<open>grant h\<close> says whether \<open>createWritable\<close> succeeds on
  the handle. The loop stops at the first output it cannot write: no input of that name
  (\<open>find\<close> gives \<open>undefined\<close>), an absent handle, or a handle that is refused.
\<close>

fun saveLoop ::
  "(handle \<Rightarrow> bool) \<Rightarrow> input_image list \<Rightarrow> output_image list \<Rightarrow> (handle \<times> js_file) list
     \<Rightarrow> js_error option \<times> (handle \<times> js_file) list" where
  "saveLoop grant ins [] w = (None, w)"
| "saveLoop grant ins (outputImage # rest) w =
     (case List.find (\<lambda>i. file_name (file_in i) = Some (name_out outputImage)) ins of
        None \<Rightarrow> (Some TypeError, w)
      | Some i \<Rightarrow>
          (case fsHandlePromise i of
             None \<Rightarrow> (Some TypeError, w)
           | Some h \<Rightarrow>
               if grant h then saveLoop grant ins rest (w @ [(h, blob outputImage)])
               else (Some AcquisitionFailure, w)))"

definition saveImagesButton_click :: "(handle \<Rightarrow> bool) \<Rightarrow> session \<Rightarrow> js_error option \<times> session" where
  "saveImagesButton_click grant s =
     (if outputImages s = [] then (None, s)
      else if length (currentImages s) \<noteq> length (outputImages s) then (None, s)
      else (case saveLoop grant (currentImages s) (outputImages s) (written s) of
              (e, w) \<Rightarrow> (e, s\<lparr>written := w\<rparr>)))"

section \<open>Viewing the images\<close>

text \<open>
  \<open>xs.sort((a, b) => key(a).localeCompare(key(b)))\<close>, with \<open>localeCompare\<close> a parameter:
  the sort is stable, so with a consistent comparator its result does not depend on the
  engine's algorithm. The model inserts from the right, each element before the first
  one it does not come after.
\<close>

fun insertSorted :: "(string \<Rightarrow> string \<Rightarrow> int) \<Rightarrow> ('a \<Rightarrow> string) \<Rightarrow> 'a \<Rightarrow> 'a list \<Rightarrow> 'a list" where
  "insertSorted localeCompare key x [] = [x]"
| "insertSorted localeCompare key x (y # ys) =
     (if localeCompare (key x) (key y) \<le> 0 then x # y # ys
      else y # insertSorted localeCompare key x ys)"

definition sortByName :: "(string \<Rightarrow> string \<Rightarrow> int) \<Rightarrow> ('a \<Rightarrow> string) \<Rightarrow> 'a list \<Rightarrow> 'a list" where
  "sortByName localeCompare key xs = foldr (insertSorted localeCompare key) xs []"

definition fileNameOf :: "input_image \<Rightarrow> string" where
  "fileNameOf i = (case file_name (file_in i) of Some n \<Rightarrow> n | None \<Rightarrow> [])"

text \<open>
  The view handler, without the viewer dialog. With a nameless file among two or more
  inputs the comparator throws \<open>TypeError\<close> or compares against the text \<open>undefined\<close>,
  depending on the order in which the engine passes it the images. What the engine's
  sort does then is the parameter \<open>engineSort\<close>: whether the comparator threw, and the
  array as the sort left it.
\<close>

definition viewImagesButton_click ::
  "(string \<Rightarrow> string \<Rightarrow> int) \<Rightarrow> bool \<times> input_image list \<Rightarrow> session \<Rightarrow> js_error option \<times> session" where
  "viewImagesButton_click localeCompare engineSort s =
     (if outputImages s = [] then (None, s)
      else
        (let s1 = s\<lparr>outputImages := sortByName localeCompare name_out (outputImages s)\<rparr>
         in if 2 \<le> length (currentImages s1) \<and>
               list_ex (\<lambda>i. file_name (file_in i) = None) (currentImages s1)
            then (if fst engineSort then Some TypeError else None,
                  s1\<lparr>currentImages := snd engineSort\<rparr>)
            else (None, s1\<lparr>currentImages := sortByName localeCompare fileNameOf (currentImages s1)\<rparr>)))"

section \<open>The handlers as events\<close>

text \<open>
  Handlers run one at a time, and a handler that awaits the engine resumes later, after
  any number of other handlers. The events are the handlers of app.js that change the
  session (the download handler does not), each with what its environment gives it.
  \<open>inFlight\<close> lists the engine calls that have not settled, each under the number of its
  run; \<open>started\<close> counts the runs. Both are bookkeeping of the model. A click reaches the
  run button's handler only while the button is enabled: the platform drops the clicks
  of a user and of \<open>runFlowButton.click()\<close> on a disabled button.
\<close>

record app =
  sess :: session
  inFlight :: "nat list"
  started :: nat


definition dispatchRunClick :: "app \<Rightarrow> app" where
  "dispatchRunClick a =
     (if runDisabled (sess a) then a
      else (case runFlowButton_click (sess a) of
              (Awaiting f fs, s1) \<Rightarrow>
                a\<lparr>sess := s1, inFlight := inFlight a @ [started a], started := Suc (started a)\<rparr>
            | (NoRun, s1) \<Rightarrow> a\<lparr>sess := s1\<rparr>
            | (RunThrew e, s1) \<Rightarrow> a\<lparr>sess := s1\<rparr>))"



section \<open>Example sessions\<close>

definition blankFlow :: flow where
  "blankFlow = \<lparr>flow_id = [], name = [], steps = []\<rparr>"

definition emptySession :: session where
  "emptySession =
     \<lparr>heap = (\<lambda>r. blankFlow), nextRef = 0, flows = [], currentFlow = None, currentId = None,
      currentImages = [], outputImages = [], stored = [], storeOk = True,
      cache = (\<lambda>k. None), search = [], running = False, runDisabled = False,
      shownInputs = [], shownOutputs = [], autoRunTimers = 0, written = []\<rparr>"

definition manifestResponse :: "share_data \<Rightarrow> response" where
  "manifestResponse shareData = \<lparr>json = Some shareData, blobType = ''application/json'', blobBytes = []\<rparr>"

definition pngResponse :: response where
  "pngResponse = \<lparr>json = None, blobType = ''image/png'', blobBytes = [137, 80, 78, 71]\<rparr>"

text \<open>A share of two images with a resize URI, and one whose URI ends in a lone \<open>%\<close>.\<close>

definition resizeShare :: session where
  "resizeShare =
     emptySession
       \<lparr>cache := (\<lambda>k. None)
          (''shareData'' \<mapsto> manifestResponse
             \<lparr>fileCount = 2, fileNames = Some [''cat.png''], title = None,
              url = Some ''web+wami://resize/250''\<rparr>,
           ''file-0'' \<mapsto> pngResponse, ''file-1'' \<mapsto> pngResponse),
        search := [(''share'', ''true'')]\<rparr>"

definition poisonedShare :: session where
  "poisonedShare =
     emptySession
       \<lparr>cache := (\<lambda>k. None)
          (''shareData'' \<mapsto> manifestResponse
             \<lparr>fileCount = 1, fileNames = Some [''cat.png''], title = None,
              url = Some ''web+wami://%''\<rparr>,
           ''file-0'' \<mapsto> pngResponse),
        search := [(''share'', ''true'')]\<rparr>"

text \<open>A launch with the share flag and an empty cache, and a share that carries no file.\<close>

definition staleShare :: session where
  "staleShare = emptySession\<lparr>search := [(''share'', ''true'')]\<rparr>"

definition textOnlyShare :: session where
  "textOnlyShare =
     emptySession
       \<lparr>cache := (\<lambda>k. None)
          (''shareData'' \<mapsto> manifestResponse
             \<lparr>fileCount = 0, fileNames = None, title = Some ''A link'', url = None\<rparr>),
        search := [(''share'', ''true'')]\<rparr>"

text \<open>A session with two stored flows, the second one open in the editor.\<close>

definition twoFlows :: session where
  "twoFlows =
     emptySession
       \<lparr>heap := (\<lambda>r. blankFlow)
          (0 := \<lparr>flow_id = ''a'', name = ''resize 250'', steps = []\<rparr>,
           1 := \<lparr>flow_id = ''b'', name = ''Sepia'', steps = [\<lparr>type = ''sepia-tone'', params = [Num 80]\<rparr>]\<rparr>),
        nextRef := 2,
        flows := [0, 1],
        currentFlow := Some 1,
        currentId := Some ''b'',
        stored :=
          [\<lparr>flow_id = ''a'', name = ''resize 250'', steps = []\<rparr>,
           \<lparr>flow_id = ''b'', name = ''Sepia'', steps = [\<lparr>type = ''sepia-tone'', params = [Num 80]\<rparr>]\<rparr>]\<rparr>"

text \<open>A manifest that names its one file, and a cache that holds the first blob only.\<close>

definition catManifest :: share_data where
  "catManifest = \<lparr>fileCount = 1, fileNames = Some [''cat.png''], title = None, url = None\<rparr>"

definition oneBlobCache :: "string \<Rightarrow> response option" where
  "oneBlobCache = (\<lambda>k. None)(''file-0'' \<mapsto> pngResponse)"

section \<open>The save precondition of the specification\<close>

text \<open>
  \<open>canSaveInPlace\<close> in the words of the specification: the batches have equal length,
  and every output's name is the file name of some input whose handle is present.
  app.js has no such function; the save handler is compared with it.
\<close>

definition canSaveInPlace :: "input_image list \<Rightarrow> output_image list \<Rightarrow> bool" where
  "canSaveInPlace inputs outputs =
     (length inputs = length outputs \<and>
      list_all (\<lambda>out. list_ex (\<lambda>i. file_name (file_in i) = Some (name_out out) \<and>
                                    fsHandlePromise i \<noteq> None) inputs) outputs)"

text \<open>
  The handle the save loop writes an output to: that of the first input of the output's
  name, when it is present and \<open>createWritable\<close> succeeds on it.
\<close>

definition targetHandle :: "(handle \<Rightarrow> bool) \<Rightarrow> input_image list \<Rightarrow> output_image \<Rightarrow> handle option" where
  "targetHandle grant ins outputImage =
     (case List.find (\<lambda>i. file_name (file_in i) = Some (name_out outputImage)) ins of
        None \<Rightarrow> None
      | Some i \<Rightarrow>
          (case fsHandlePromise i of
             None \<Rightarrow> None
           | Some h \<Rightarrow> if grant h then Some h else None))"

text \<open>Two picked files edited by a run, the second picked without a handle.\<close>

definition halfWritable :: session where
  "halfWritable =
     emptySession
       \<lparr>currentImages :=
          [\<lparr>file_in = File ''a.png'' ''image/png'' [1], name_in = None, fsHandlePromise = Some 7\<rparr>,
           \<lparr>file_in = File ''b.png'' ''image/png'' [2], name_in = None, fsHandlePromise = None\<rparr>],
        outputImages :=
          [\<lparr>blob = Blob None ''image/png'' [3], name_out = ''a.png''\<rparr>,
           \<lparr>blob = Blob None ''image/png'' [4], name_out = ''b.png''\<rparr>]\<rparr>"

section \<open>Example runs\<close>

text \<open>A comparator for the examples: shorter names first.\<close>

definition byLength :: "string \<Rightarrow> string \<Rightarrow> int" where
  "byLength a b = int (length a) - int (length b)"

text \<open>The application with two dropped images, \<open>b.png\<close> before \<open>a.png\<close>, before and after a click on Run.\<close>

definition twoImages :: session where
  "twoImages =
     emptySession
       \<lparr>currentImages :=
          [\<lparr>file_in = File ''bb.png'' ''image/png'' [2], name_in = None, fsHandlePromise = None\<rparr>,
           \<lparr>file_in = File ''a.png'' ''image/png'' [1], name_in = None, fsHandlePromise = None\<rparr>]\<rparr>"





section \<open>Consistent comparators\<close>

text \<open>
  What \<open>sort\<close> asks of its comparator, for \<open>localeCompare\<close>: any two names compare one
  way or the other, and the comparison is transitive.
\<close>

definition consistent :: "(string \<Rightarrow> string \<Rightarrow> int) \<Rightarrow> bool" where
  "consistent localeCompare =
     ((\<forall>a b. localeCompare a b \<le> 0 \<or> localeCompare b a \<le> 0) \<and>
      (\<forall>a b c. localeCompare a b \<le> 0 \<and> localeCompare b c \<le> 0 \<longrightarrow> localeCompare a c \<le> 0))"

text \<open>The two images after a run that gave two outputs.\<close>

definition twoOutputs :: session where
  "twoOutputs =
     twoImages
       \<lparr>outputImages :=
          [\<lparr>blob = Blob None ''image/png'' [4], name_out = ''bb.png''\<rparr>,
           \<lparr>blob = Blob None ''image/png'' [3], name_out = ''a.png''\<rparr>]\<rparr>"

section \<open>Properties: the custom URI\<close>

text \<open>
  C6. Parsing the custom URI \<open>web+wami://resize/250\<close> yields exactly the one step
  \<open>resize-width-if-larger\<close> with the parameter 250, and the flow title \<open>resize 250\<close>.
\<close>

theorem parse_resize_250:
  "parseWebWamiUrl ''web+wami://resize/250'' =
     Inr (Some (''resize 250'', [\<lparr>type = ''resize-width-if-larger'', params = [Num 250]\<rparr>]))"
  by code_simp

text \<open>The same URI in a manifest resolves to that title and step, whatever the manifest's title.\<close>

theorem parse_resize_250_witness:
  "determineFlowConfiguration
     \<lparr>fileCount = 1, fileNames = None, title = Some ''Holiday'', url = Some ''web+wami://resize/250''\<rparr> =
   Inr (''resize 250'', [\<lparr>type = ''resize-width-if-larger'', params = [Num 250]\<rparr>])"
proof -
  have t: "trim ''web+wami://resize/250'' = ''web+wami://resize/250''"
    by code_simp
  from parse_resize_250 t show ?thesis
    by (simp add: determineFlowConfiguration_def startsWith_def)
qed

section \<open>Properties: consuming the share\<close>

lemma saveFlows_cache [simp]: "cache (snd (saveFlows fs s)) = cache s"
  by (simp add: saveFlows_def)

lemma navigateToFlow_cache [simp]: "cache (snd (navigateToFlow selected i s)) = cache s"
  by (simp add: navigateToFlow_def navigateToHome_def Let_def split: lookup.splits)

lemma createOrNavigateToFlow_cache [simp]:
  "cache (snd (createOrNavigateToFlow uid selected t st s)) = cache s"
proof -
  have n: "cache (snd (case p of (Some e, s3) \<Rightarrow> (Inl e, s3) | (None, s3) \<Rightarrow> (Inr r, s3))) =
           cache (snd p)" for p :: "js_error option \<times> session" and r :: ref
    by (cases p) (simp split: option.splits)
  show ?thesis
    by (simp add: createOrNavigateToFlow_def createNewFlow_def saveFlows_def Let_def n
        split: option.splits)
qed

lemma loadAndProcessSharedImages_cache [simp]:
  "cache (loadAndProcessSharedImages sd s) = cache s"
  by (simp add: loadAndProcessSharedImages_def populateInputImages_def Let_def)

lemma foldl_delete:
  "foldl (\<lambda>c i. c(fileKey i := None)) c0 is k = (if k \<in> fileKey ` set is then None else c0 k)"
  by (induction "is" arbitrary: c0) auto

lemma cleanupShareCache_cache:
  "cache (cleanupShareCache sd s) k =
     (if k = ''shareData'' \<or> k \<in> fileKey ` {0..<nat (fileCount sd)} then None else cache s k)"
  by (simp add: cleanupShareCache_def foldl_delete)

lemma fileKey_0: "fileKey 0 = ''file-0''"
  by (simp add: fileKey_def digits.simps)

lemma fileKey_1: "fileKey (Suc 0) = ''file-1''"
  by (simp add: fileKey_def digits.simps)

text \<open>
  The clean-up is the last statement of the \<open>try\<close> block: the entries of the transfer
  are deleted when the block runs to its end, and the cache is as it was when the block
  throws or returns early.
\<close>

lemma share_cache_deleted_on_completion:
  assumes "shareTargetTry uid selected s = (Completed, s1)"
    and "cache s ''shareData'' = Some shareDataResponse"
    and "json shareDataResponse = Some shareData"
  shows "cache s1 ''shareData'' = None \<and>
         (\<forall>i. int i < fileCount shareData \<longrightarrow> cache s1 (fileKey i) = None)"
proof -
  from assms obtain t st s2 where
    "s1 = cleanupShareCache shareData (loadAndProcessSharedImages shareData s2)"
    by (auto simp: shareTargetTry_def split: if_splits sum.splits prod.splits)
  then show ?thesis
    by (auto simp: cleanupShareCache_cache)
qed

lemma share_cache_kept_otherwise:
  assumes "shareTargetTry uid selected s = (c, s1)" and "c \<noteq> Completed"
  shows "cache s1 = cache s"
proof -
  have k: "cache s2 = cache s" if "createOrNavigateToFlow uid selected t st s = (r, s2)" for t st r s2
    using createOrNavigateToFlow_cache [of uid selected t st s] that by simp
  from assms show ?thesis
    by (auto simp: shareTargetTry_def dest: k split: option.splits if_splits sum.splits prod.splits)
qed

lemma resizeShare_config:
  "determineFlowConfiguration
     \<lparr>fileCount = 2, fileNames = Some [''cat.png''], title = None, url = Some ''web+wami://resize/250''\<rparr> =
   Inr (''resize 250'', [\<lparr>type = ''resize-width-if-larger'', params = [Num 250]\<rparr>])"
  by code_simp

text \<open>The share of two images with the resize URI runs to its end: all three entries are gone.\<close>

lemma share_cache_deleted_example:
  "cache (processShareTargetData ''u1'' Found resizeShare) ''shareData'' = None \<and>
   cache (processShareTargetData ''u1'' Found resizeShare) ''file-0'' = None \<and>
   cache (processShareTargetData ''u1'' Found resizeShare) ''file-1'' = None \<and>
   search (processShareTargetData ''u1'' Found resizeShare) = []"
proof -
  let ?m = "\<lparr>fileCount = 2, fileNames = Some [''cat.png''], title = None,
              url = Some ''web+wami://resize/250''\<rparr>"
  have h1: "isShared resizeShare"
    by (simp add: isShared_def resizeShare_def emptySession_def)
  have h2: "cache resizeShare ''shareData'' = Some (manifestResponse ?m)"
    by (simp add: resizeShare_def emptySession_def)
  have h3: "json (manifestResponse ?m) = Some ?m"
    by (simp add: manifestResponse_def)
  obtain r s2 where c: "createOrNavigateToFlow ''u1'' Found ''resize 250''
      [\<lparr>type = ''resize-width-if-larger'', params = [Num 250]\<rparr>] resizeShare = (Inr r, s2)"
    by (simp add: createOrNavigateToFlow_def createNewFlow_def saveFlows_def navigateToFlow_def
        navigateToHome_def collection_def Let_def resizeShare_def emptySession_def)
  define s1 where "s1 = cleanupShareCache ?m (loadAndProcessSharedImages ?m s2)"
  have t: "shareTargetTry ''u1'' Found resizeShare = (Completed, s1)"
    using h2 h3 resizeShare_config c by (simp add: shareTargetTry_def s1_def)
  from share_cache_deleted_on_completion [OF t h2 h3]
  have a: "cache s1 ''shareData'' = None"
    and b: "\<forall>i. int i < 2 \<longrightarrow> cache s1 (fileKey i) = None"
    by simp_all
  from b have "cache s1 (fileKey 0) = None" and "cache s1 (fileKey (Suc 0)) = None"
    by simp_all
  with a h1 t show ?thesis
    by (simp add: processShareTargetData_def fileKey_0 fileKey_1)
qed

lemma poisoned_config:
  "determineFlowConfiguration
     \<lparr>fileCount = 1, fileNames = Some [''cat.png''], title = None, url = Some ''web+wami://%''\<rparr> =
   Inl URIError"
  by code_simp

text \<open>A no-break space before the scheme is trimmed away, and the URI throws all the same.\<close>

lemma poisoned_config_after_no_break_space:
  "determineFlowConfiguration
     \<lparr>fileCount = 1, fileNames = None, title = None,
      url = Some ([CHR 0xC2, CHR 0xA0] @ ''web+wami://%'')\<rparr> =
   Inl URIError"
  by code_simp

text \<open>
  C1. The entries of a transfer whose manifest was read are to be deleted by the end of
  processing, also when flow resolution throws. The code deletes them in the last
  statement of the \<open>try\<close> block only. The manifest below is read and names one file;
  its URI makes \<open>decodeURIComponent\<close> throw; the \<open>catch\<close> logs the error, the URL loses
  its share marker, and the manifest and the blob stay in the cache.
\<close>

theorem share_cache_kept_when_uri_throws:
  "isShared poisonedShare \<and>
   (\<exists>resp sd. cache poisonedShare ''shareData'' = Some resp \<and> json resp = Some sd \<and> fileCount sd = 1) \<and>
   fst (shareTargetTry ''u1'' Found poisonedShare) = Threw URIError \<and>
   cache (processShareTargetData ''u1'' Found poisonedShare) ''shareData'' \<noteq> None \<and>
   cache (processShareTargetData ''u1'' Found poisonedShare) ''file-0'' \<noteq> None \<and>
   search (processShareTargetData ''u1'' Found poisonedShare) = []"
  using poisoned_config
  by (simp add: processShareTargetData_def shareTargetTry_def isShared_def poisonedShare_def
      emptySession_def manifestResponse_def)

text \<open>
  C4. The share marker is to leave the URL after every activation. The \<open>return\<close>
  statements inside the \<open>try\<close> block leave the function before \<open>replaceState\<close>: with
  no manifest in the cache, or a manifest without files, the session is left as it was,
  marker included.
\<close>

theorem share_marker_kept_on_early_return:
  "isShared staleShare \<and> processShareTargetData ''u1'' Found staleShare = staleShare \<and>
   isShared (startApp ''u1'' Found staleShare) \<and>
   isShared textOnlyShare \<and> processShareTargetData ''u1'' Found textOnlyShare = textOnlyShare \<and>
   isShared (startApp ''u1'' Found textOnlyShare)"
  by (simp add: startApp_def logProtocolActivation_def processShareTargetData_def shareTargetTry_def
      isShared_def staleShare_def textOnlyShare_def emptySession_def manifestResponse_def)

text \<open>On every other path, a throw included, the query is dropped.\<close>

lemma share_marker_removed_otherwise:
  "isShared s \<Longrightarrow> fst (shareTargetTry uid selected s) \<noteq> Returned \<Longrightarrow>
     search (processShareTargetData uid selected s) = []"
  by (cases "shareTargetTry uid selected s")
     (auto simp: processShareTargetData_def split: completion.splits)

lemma share_returns_early:
  "fst (shareTargetTry uid selected s) = Returned \<longleftrightarrow>
     (cache s ''shareData'' = None \<or>
      (\<exists>resp sd. cache s ''shareData'' = Some resp \<and> json resp = Some sd \<and> fileCount sd \<le> 0))"
  by (auto simp: shareTargetTry_def split: option.splits sum.splits prod.splits)

section \<open>Properties: the flow collection\<close>

lemma findIndex_Some:
  "findIndex P xs = Some k \<Longrightarrow> k < length xs \<and> P (xs ! k) \<and> (\<forall>j<k. \<not> P (xs ! j))"
proof (induction xs arbitrary: k)
  case Nil
  then show ?case by simp
next
  case (Cons x xs)
  show ?case
  proof (cases "P x")
    case True
    with Cons.prems show ?thesis by simp
  next
    case False
    with Cons.prems obtain k' where k': "findIndex P xs = Some k'" "k = Suc k'"
      by auto
    from Cons.IH [OF k'(1)] False k'(2) show ?thesis
      by (auto simp: nth_Cons split: nat.splits)
  qed
qed

lemma findIndex_None: "findIndex P xs = None \<longleftrightarrow> (\<forall>x\<in>set xs. \<not> P x)"
  by (induction xs) auto

text \<open>
  What both writers of the collection do: update the object behind \<open>r\<close> in place, keeping
  its id, and store \<open>r\<close> at the first index that holds its id.
\<close>

lemma replace_in_place:
  assumes h: "h = (heap s)(r := u)" and u: "flow_id u = flow_id (heap s r)"
    and fs: "fs = assignAt (flows s) (findIndex (\<lambda>q. flow_id (h q) = flow_id (h r)) (flows s)) r"
  shows "length (map h fs) = length (collection s)"
    and "\<forall>i<length (collection s).
           map h fs ! i = collection s ! i \<or>
           (flow_id (collection s ! i) = flow_id (heap s r) \<and> map h fs ! i = u)"
    and "r \<in> set (flows s) \<Longrightarrow> r \<in> set fs"
proof -
  let ?P = "\<lambda>q. flow_id (h q) = flow_id (h r)"
  have hr: "h r = u" and hq: "\<And>q. q \<noteq> r \<Longrightarrow> h q = heap s q"
    using h by simp_all
  have idh: "\<And>q. flow_id (h q) = flow_id (heap s q)"
    using h u by simp
  show "length (map h fs) = length (collection s)"
    using fs by (simp add: assignAt_def collection_def split: option.splits)
  show "\<forall>i<length (collection s).
           map h fs ! i = collection s ! i \<or>
           (flow_id (collection s ! i) = flow_id (heap s r) \<and> map h fs ! i = u)"
  proof (intro allI impI)
    fix i assume i: "i < length (collection s)"
    then have il: "i < length (flows s)" by (simp add: collection_def)
    have len: "length fs = length (flows s)"
      using fs by (simp add: assignAt_def split: option.splits)
    have old: "collection s ! i = heap s (flows s ! i)"
      using il by (simp add: collection_def)
    have new: "map h fs ! i = h (fs ! i)"
      using il len by simp
    show "map h fs ! i = collection s ! i \<or>
           (flow_id (collection s ! i) = flow_id (heap s r) \<and> map h fs ! i = u)"
    proof (cases "fs ! i = r")
      case True
      have "flow_id (heap s (flows s ! i)) = flow_id (heap s r)"
      proof (cases "flows s ! i = r")
        case True
        then show ?thesis by simp
      next
        case False
        have "findIndex ?P (flows s) = Some i"
        proof (cases "findIndex ?P (flows s)")
          case None
          with True False fs show ?thesis by (simp add: assignAt_def)
        next
          case (Some k)
          with True False fs il have "k = i"
            by (cases "k = i") (simp_all add: assignAt_def)
          with Some show ?thesis by simp
        qed
        from findIndex_Some [OF this] have "?P (flows s ! i)" by simp
        then show ?thesis by (simp add: idh)
      qed
      with True show ?thesis by (simp add: old new hr)
    next
      case False
      have "fs ! i = flows s ! i"
      proof (cases "findIndex ?P (flows s)")
        case None
        with fs show ?thesis by (simp add: assignAt_def)
      next
        case (Some k)
        with False fs il have "k \<noteq> i"
          by (auto simp: assignAt_def)
        with Some fs show ?thesis by (simp add: assignAt_def)
      qed
      with False show ?thesis by (simp add: old new hq)
    qed
  qed
  show "r \<in> set fs" if "r \<in> set (flows s)"
  proof -
    from that obtain i where i: "i < length (flows s)" "flows s ! i = r"
      by (auto simp: in_set_conv_nth)
    have len: "length fs = length (flows s)"
      using fs by (simp add: assignAt_def split: option.splits)
    have "fs ! i = r"
    proof (cases "findIndex ?P (flows s)")
      case None
      with fs i show ?thesis by (simp add: assignAt_def)
    next
      case (Some k)
      with fs i show ?thesis
        by (cases "k = i") (simp_all add: assignAt_def)
    qed
    with i(1) len show ?thesis by (metis nth_mem)
  qed
qed

lemma replace_in_place_first:
  assumes h: "h = (heap s)(r := u)"
    and k: "findIndex (\<lambda>q. flow_id (h q) = flow_id (h r)) (flows s) = Some k"
  shows "map h (assignAt (flows s) (Some k) r) ! k = u"
  using findIndex_Some [OF k] h by (simp add: assignAt_def)

text \<open>
  C8. Committing an editor change to the current flow persists the collection with the
  same length and order; every entry is the one that was there, or it had the current
  flow's id and is now the current flow with the editor's name and steps. The first
  entry that holds the current flow's id is replaced so.
\<close>

theorem handleFlowChange_replaces_only_current:
  assumes "currentFlow s = Some r" and "storeOk s"
  shows "fst (handleFlowChange formSteps newName s) = None \<and>
         stored (snd (handleFlowChange formSteps newName s)) =
           collection (snd (handleFlowChange formSteps newName s)) \<and>
         length (stored (snd (handleFlowChange formSteps newName s))) = length (collection s) \<and>
         (\<forall>i<length (collection s).
            stored (snd (handleFlowChange formSteps newName s)) ! i = collection s ! i \<or>
            (flow_id (collection s ! i) = flow_id (heap s r) \<and>
             stored (snd (handleFlowChange formSteps newName s)) ! i =
               \<lparr>flow_id = flow_id (heap s r), name = newName, steps = formSteps\<rparr>)) \<and>
         (\<forall>k. findIndex (\<lambda>q. flow_id (heap s q) = flow_id (heap s r)) (flows s) = Some k \<longrightarrow>
            stored (snd (handleFlowChange formSteps newName s)) ! k =
              \<lparr>flow_id = flow_id (heap s r), name = newName, steps = formSteps\<rparr>)"
proof -
  define u where "u = (heap s r)\<lparr>name := newName, steps := formSteps\<rparr>"
  define h where "h = (heap s)(r := u)"
  define fs where "fs = assignAt (flows s) (findIndex (\<lambda>q. flow_id (h q) = flow_id (h r)) (flows s)) r"
  have u: "flow_id u = flow_id (heap s r)" by (simp add: u_def)
  have ueq: "u = \<lparr>flow_id = flow_id (heap s r), name = newName, steps = formSteps\<rparr>"
    by (simp add: u_def)
  have run: "handleFlowChange formSteps newName s =
               (None, s\<lparr>heap := h, flows := fs, stored := map h fs\<rparr>)"
    using assms by (simp add: handleFlowChange_def saveFlows_def collection_def Let_def
        h_def fs_def u_def)
  note r = replace_in_place [OF h_def u fs_def]
  have same: "(\<lambda>q. flow_id (h q) = flow_id (h r)) = (\<lambda>q. flow_id (heap s q) = flow_id (heap s r))"
    by (auto simp: h_def u)
  have first: "map h fs ! k = u"
    if "findIndex (\<lambda>q. flow_id (heap s q) = flow_id (heap s r)) (flows s) = Some k" for k
  proof -
    from that have k: "findIndex (\<lambda>q. flow_id (h q) = flow_id (h r)) (flows s) = Some k"
      by (simp add: same)
    from replace_in_place_first [OF h_def k] k show ?thesis
      by (simp add: fs_def)
  qed
  show ?thesis
    using r(1) r(2) first by (simp add: run collection_def ueq)
qed

text \<open>Renaming the second of two flows: the first entry stays, the second is the new one.\<close>

theorem handleFlowChange_witness:
  "currentFlow twoFlows = Some 1 \<and> storeOk twoFlows \<and>
   stored (snd (handleFlowChange [\<lparr>type = ''blur'', params = [Str ''3'']\<rparr>] ''Blurry'' twoFlows)) ! 0 =
     \<lparr>flow_id = ''a'', name = ''resize 250'', steps = []\<rparr> \<and>
   stored (snd (handleFlowChange [\<lparr>type = ''blur'', params = [Str ''3'']\<rparr>] ''Blurry'' twoFlows)) ! 1 =
     \<lparr>flow_id = ''b'', name = ''Blurry'', steps = [\<lparr>type = ''blur'', params = [Str ''3'']\<rparr>]\<rparr> \<and>
   length (stored (snd (handleFlowChange [\<lparr>type = ''blur'', params = [Str ''3'']\<rparr>] ''Blurry'' twoFlows))) = 2"
proof -
  have h1: "currentFlow twoFlows = Some 1"
    by (simp add: twoFlows_def emptySession_def)
  have h2: "storeOk twoFlows"
    by (simp add: twoFlows_def emptySession_def)
  have c: "collection twoFlows =
      [\<lparr>flow_id = ''a'', name = ''resize 250'', steps = []\<rparr>,
       \<lparr>flow_id = ''b'', name = ''Sepia'', steps = [\<lparr>type = ''sepia-tone'', params = [Num 80]\<rparr>]\<rparr>]"
    by (simp add: collection_def twoFlows_def emptySession_def)
  have f: "findIndex (\<lambda>q. flow_id (heap twoFlows q) = flow_id (heap twoFlows 1)) (flows twoFlows) = Some 1"
    by (simp add: twoFlows_def emptySession_def)
  have i: "flow_id (heap twoFlows 1) = ''b''" "flow_id (heap twoFlows (Suc 0)) = ''b''"
    by (simp_all add: twoFlows_def emptySession_def)
  note th = handleFlowChange_replaces_only_current
    [OF h1 h2, of "[\<lparr>type = ''blur'', params = [Str ''3'']\<rparr>]" "''Blurry''"]
  from th have "length (stored (snd (handleFlowChange [\<lparr>type = ''blur'', params = [Str ''3'']\<rparr>] ''Blurry'' twoFlows))) =
      length (collection twoFlows)"
    by blast
  then have len: "length (stored (snd (handleFlowChange [\<lparr>type = ''blur'', params = [Str ''3'']\<rparr>] ''Blurry'' twoFlows))) = 2"
    by (simp add: c)
  from th have "\<forall>i<length (collection twoFlows).
            stored (snd (handleFlowChange [\<lparr>type = ''blur'', params = [Str ''3'']\<rparr>] ''Blurry'' twoFlows)) ! i = collection twoFlows ! i \<or>
            (flow_id (collection twoFlows ! i) = flow_id (heap twoFlows 1) \<and>
             stored (snd (handleFlowChange [\<lparr>type = ''blur'', params = [Str ''3'']\<rparr>] ''Blurry'' twoFlows)) ! i =
               \<lparr>flow_id = flow_id (heap twoFlows 1), name = ''Blurry'', steps = [\<lparr>type = ''blur'', params = [Str ''3'']\<rparr>]\<rparr>)"
    by blast
  then have zero: "stored (snd (handleFlowChange [\<lparr>type = ''blur'', params = [Str ''3'']\<rparr>] ''Blurry'' twoFlows)) ! 0 =
     \<lparr>flow_id = ''a'', name = ''resize 250'', steps = []\<rparr>"
    by - (drule spec [of _ 0], simp add: c i)
  from th f have "stored (snd (handleFlowChange [\<lparr>type = ''blur'', params = [Str ''3'']\<rparr>] ''Blurry'' twoFlows)) ! 1 =
     \<lparr>flow_id = flow_id (heap twoFlows 1), name = ''Blurry'', steps = [\<lparr>type = ''blur'', params = [Str ''3'']\<rparr>]\<rparr>"
    by blast
  then have one: "stored (snd (handleFlowChange [\<lparr>type = ''blur'', params = [Str ''3'']\<rparr>] ''Blurry'' twoFlows)) ! 1 =
     \<lparr>flow_id = ''b'', name = ''Blurry'', steps = [\<lparr>type = ''blur'', params = [Str ''3'']\<rparr>]\<rparr>"
    by (simp add: i)
  from h1 h2 zero one len show ?thesis by simp
qed

lemma navigateToFlow_keeps [simp]:
  "heap (snd (navigateToFlow selected i s)) = heap s"
  "flows (snd (navigateToFlow selected i s)) = flows s"
  "stored (snd (navigateToFlow selected i s)) = stored s"
  "nextRef (snd (navigateToFlow selected i s)) = nextRef s"
  by (simp_all add: navigateToFlow_def navigateToHome_def Let_def split: lookup.splits)

lemma navigateToFlow_collection [simp]:
  "collection (snd (navigateToFlow selected i s)) = collection s"
  by (simp add: collection_def)

lemma navigateToFlow_Found [simp]: "fst (navigateToFlow Found i s) = None"
  by (simp add: navigateToFlow_def Let_def)

text \<open>How the two branches of flow resolution end: with the navigation's error, or the target.\<close>

lemma after_navigation:
  "(case p of (Some e, s3) \<Rightarrow> (Inl e, s3) | (None, s3) \<Rightarrow> (Inr r, s3)) =
     ((case fst p of Some e \<Rightarrow> Inl e | None \<Rightarrow> Inr r), snd p)"
  by (cases p) (simp split: option.splits)

lemma find_Some_in_set: "List.find P xs = Some x \<Longrightarrow> x \<in> set xs \<and> P x"
  by (induction xs) (auto split: if_splits)

text \<open>
  C5, as the code has it. When the store takes the write and the flows' references are
  allocated: if a flow is named exactly as the resolved title, the steps of the first
  such flow are the resolved steps, the persisted collection holds it, has the length it
  had, and every entry is the one that was there or had that flow's id and is now that
  flow; if no flow has that name, a new flow with the resolved steps is appended and
  persisted, named by the resolved title, or \<open>Untitled flow\<close> when the title is empty.
  That flow is the target that is returned when the navigation to it finds its entry in
  the sidebar.
\<close>

theorem createOrNavigateToFlow_reuses_or_creates:
  assumes "storeOk s" and "\<forall>r\<in>set (flows s). r < nextRef s"
  shows "(\<forall>existingFlow.
            List.find (\<lambda>r. name (heap s r) = flowTitle) (flows s) = Some existingFlow \<longrightarrow>
              (selected = Found \<longrightarrow>
                 fst (createOrNavigateToFlow uid selected flowTitle flowSteps s) = Inr existingFlow) \<and>
              heap (snd (createOrNavigateToFlow uid selected flowTitle flowSteps s)) existingFlow =
                (heap s existingFlow)\<lparr>steps := flowSteps\<rparr> \<and>
              name (heap s existingFlow) = flowTitle \<and>
              stored (snd (createOrNavigateToFlow uid selected flowTitle flowSteps s)) =
                collection (snd (createOrNavigateToFlow uid selected flowTitle flowSteps s)) \<and>
              (heap s existingFlow)\<lparr>steps := flowSteps\<rparr> \<in>
                set (stored (snd (createOrNavigateToFlow uid selected flowTitle flowSteps s))) \<and>
              length (stored (snd (createOrNavigateToFlow uid selected flowTitle flowSteps s))) =
                length (collection s) \<and>
              (\<forall>i<length (collection s).
                 stored (snd (createOrNavigateToFlow uid selected flowTitle flowSteps s)) ! i = collection s ! i \<or>
                 (flow_id (collection s ! i) = flow_id (heap s existingFlow) \<and>
                  stored (snd (createOrNavigateToFlow uid selected flowTitle flowSteps s)) ! i =
                    (heap s existingFlow)\<lparr>steps := flowSteps\<rparr>))) \<and>
         (List.find (\<lambda>r. name (heap s r) = flowTitle) (flows s) = None \<longrightarrow>
            (selected = Found \<longrightarrow>
               fst (createOrNavigateToFlow uid selected flowTitle flowSteps s) = Inr (nextRef s)) \<and>
            heap (snd (createOrNavigateToFlow uid selected flowTitle flowSteps s)) (nextRef s) =
              \<lparr>flow_id = uid, name = (if flowTitle = [] then ''Untitled flow'' else flowTitle),
               steps = flowSteps\<rparr> \<and>
            stored (snd (createOrNavigateToFlow uid selected flowTitle flowSteps s)) =
              collection (snd (createOrNavigateToFlow uid selected flowTitle flowSteps s)) \<and>
            stored (snd (createOrNavigateToFlow uid selected flowTitle flowSteps s)) =
              collection s @
              [\<lparr>flow_id = uid, name = (if flowTitle = [] then ''Untitled flow'' else flowTitle),
                steps = flowSteps\<rparr>])"
proof (intro conjI allI impI)
  fix existingFlow
  assume f: "List.find (\<lambda>r. name (heap s r) = flowTitle) (flows s) = Some existingFlow"
  define u where "u = (heap s existingFlow)\<lparr>steps := flowSteps\<rparr>"
  define h where "h = (heap s)(existingFlow := u)"
  define fs where "fs = assignAt (flows s)
      (findIndex (\<lambda>q. flow_id (h q) = flow_id (h existingFlow)) (flows s)) existingFlow"
  have u: "flow_id u = flow_id (heap s existingFlow)" by (simp add: u_def)
  define nav where "nav = navigateToFlow selected (flow_id (h existingFlow))
      (s\<lparr>heap := h, flows := fs, stored := map h fs\<rparr>)"
  have run: "createOrNavigateToFlow uid selected flowTitle flowSteps s =
      ((case fst nav of Some e \<Rightarrow> Inl e | None \<Rightarrow> Inr existingFlow), snd nav)"
    using assms(1) f
    by (simp add: createOrNavigateToFlow_def saveFlows_def collection_def Let_def after_navigation
        nav_def h_def fs_def u_def)
  note r = replace_in_place [OF h_def u fs_def]
  from find_Some_in_set [OF f] have mem: "existingFlow \<in> set (flows s)"
    and nm: "name (heap s existingFlow) = flowTitle" by simp_all
  have hu: "h existingFlow = u" by (simp add: h_def)
  show "fst (createOrNavigateToFlow uid selected flowTitle flowSteps s) = Inr existingFlow"
    if "selected = Found"
    unfolding run nav_def using that by simp
  show "heap (snd (createOrNavigateToFlow uid selected flowTitle flowSteps s)) existingFlow =
          (heap s existingFlow)\<lparr>steps := flowSteps\<rparr>"
    by (simp add: run nav_def hu u_def)
  show "name (heap s existingFlow) = flowTitle" by (rule nm)
  show "stored (snd (createOrNavigateToFlow uid selected flowTitle flowSteps s)) =
          collection (snd (createOrNavigateToFlow uid selected flowTitle flowSteps s))"
    by (simp add: run nav_def collection_def)
  show "(heap s existingFlow)\<lparr>steps := flowSteps\<rparr> \<in>
          set (stored (snd (createOrNavigateToFlow uid selected flowTitle flowSteps s)))"
    using r(3) [OF mem] hu by (force simp: run nav_def u_def)
  show "length (stored (snd (createOrNavigateToFlow uid selected flowTitle flowSteps s))) = length (collection s)"
    using r(1) by (simp add: run nav_def)
  fix i assume "i < length (collection s)"
  with r(2) show "stored (snd (createOrNavigateToFlow uid selected flowTitle flowSteps s)) ! i = collection s ! i \<or>
                 (flow_id (collection s ! i) = flow_id (heap s existingFlow) \<and>
                  stored (snd (createOrNavigateToFlow uid selected flowTitle flowSteps s)) ! i =
                    (heap s existingFlow)\<lparr>steps := flowSteps\<rparr>)"
    by (simp add: run nav_def u_def)
next
  assume f: "List.find (\<lambda>r. name (heap s r) = flowTitle) (flows s) = None"
  define newFlow where "newFlow =
    \<lparr>flow_id = uid, name = (if flowTitle = [] then ''Untitled flow'' else flowTitle), steps = flowSteps\<rparr>"
  define h where "h = (heap s)(nextRef s := newFlow)"
  have old: "map h (flows s) = collection s"
    using assms(2) by (auto simp: h_def collection_def)
  define nav where "nav = navigateToFlow selected uid
      (s\<lparr>heap := h, nextRef := Suc (nextRef s), flows := flows s @ [nextRef s],
         stored := map h (flows s) @ [newFlow]\<rparr>)"
  have run: "createOrNavigateToFlow uid selected flowTitle flowSteps s =
      ((case fst nav of Some e \<Rightarrow> Inl e | None \<Rightarrow> Inr (nextRef s)), snd nav)"
    using assms(1) f
    by (simp add: createOrNavigateToFlow_def createNewFlow_def saveFlows_def collection_def Let_def
        after_navigation nav_def h_def newFlow_def)
  show "fst (createOrNavigateToFlow uid selected flowTitle flowSteps s) = Inr (nextRef s)"
    if "selected = Found"
    unfolding run nav_def using that by simp
  show "heap (snd (createOrNavigateToFlow uid selected flowTitle flowSteps s)) (nextRef s) =
              \<lparr>flow_id = uid, name = (if flowTitle = [] then ''Untitled flow'' else flowTitle),
               steps = flowSteps\<rparr>"
    by (simp add: run nav_def h_def newFlow_def)
  show "stored (snd (createOrNavigateToFlow uid selected flowTitle flowSteps s)) =
              collection (snd (createOrNavigateToFlow uid selected flowTitle flowSteps s))"
    by (simp add: run nav_def collection_def h_def)
  show "stored (snd (createOrNavigateToFlow uid selected flowTitle flowSteps s)) =
              collection s @
              [\<lparr>flow_id = uid, name = (if flowTitle = [] then ''Untitled flow'' else flowTitle),
                steps = flowSteps\<rparr>]"
    using old by (simp add: run nav_def newFlow_def)
qed


text \<open>With two flows stored: the title of the first reuses it, a new title appends a flow.\<close>

theorem createOrNavigateToFlow_witness:
  "storeOk twoFlows \<and>
   fst (createOrNavigateToFlow ''u1'' Found ''resize 250'' [\<lparr>type = ''resize-width-if-larger'', params = [Num 250]\<rparr>] twoFlows) = Inr 0 \<and>
   heap (snd (createOrNavigateToFlow ''u1'' Found ''resize 250'' [\<lparr>type = ''resize-width-if-larger'', params = [Num 250]\<rparr>] twoFlows)) 0 =
     \<lparr>flow_id = ''a'', name = ''resize 250'', steps = [\<lparr>type = ''resize-width-if-larger'', params = [Num 250]\<rparr>]\<rparr> \<and>
   length (stored (snd (createOrNavigateToFlow ''u1'' Found ''resize 250'' [\<lparr>type = ''resize-width-if-larger'', params = [Num 250]\<rparr>] twoFlows))) = 2 \<and>
   fst (createOrNavigateToFlow ''u1'' Found ''Holiday'' defaultSteps twoFlows) = Inr 2 \<and>
   stored (snd (createOrNavigateToFlow ''u1'' Found ''Holiday'' defaultSteps twoFlows)) =
     [\<lparr>flow_id = ''a'', name = ''resize 250'', steps = []\<rparr>,
      \<lparr>flow_id = ''b'', name = ''Sepia'', steps = [\<lparr>type = ''sepia-tone'', params = [Num 80]\<rparr>]\<rparr>,
      \<lparr>flow_id = ''u1'', name = ''Holiday'', steps = defaultSteps\<rparr>]"
proof -
  have h1: "storeOk twoFlows"
    by (simp add: twoFlows_def emptySession_def)
  have h2: "\<forall>r\<in>set (flows twoFlows). r < nextRef twoFlows"
    by (simp add: twoFlows_def emptySession_def)
  have c: "collection twoFlows =
      [\<lparr>flow_id = ''a'', name = ''resize 250'', steps = []\<rparr>,
       \<lparr>flow_id = ''b'', name = ''Sepia'', steps = [\<lparr>type = ''sepia-tone'', params = [Num 80]\<rparr>]\<rparr>]"
    by (simp add: collection_def twoFlows_def emptySession_def)
  have n: "nextRef twoFlows = 2" and z: "heap twoFlows 0 = \<lparr>flow_id = ''a'', name = ''resize 250'', steps = []\<rparr>"
    by (simp_all add: twoFlows_def emptySession_def)
  have f1: "List.find (\<lambda>r. name (heap twoFlows r) = ''resize 250'') (flows twoFlows) = Some 0"
    by (simp add: twoFlows_def emptySession_def)
  have f2: "List.find (\<lambda>r. name (heap twoFlows r) = ''Holiday'') (flows twoFlows) = None"
    by (simp add: twoFlows_def emptySession_def)
  note th1 = createOrNavigateToFlow_reuses_or_creates [OF h1 h2, of "''resize 250''" Found "''u1''"
      "[\<lparr>type = ''resize-width-if-larger'', params = [Num 250]\<rparr>]"]
  note th2 = createOrNavigateToFlow_reuses_or_creates [OF h1 h2, of "''Holiday''" Found "''u1''" defaultSteps]
  from th1 f1 have a1:
    "fst (createOrNavigateToFlow ''u1'' Found ''resize 250'' [\<lparr>type = ''resize-width-if-larger'', params = [Num 250]\<rparr>] twoFlows) = Inr 0"
    and a2: "heap (snd (createOrNavigateToFlow ''u1'' Found ''resize 250'' [\<lparr>type = ''resize-width-if-larger'', params = [Num 250]\<rparr>] twoFlows)) 0 =
       (heap twoFlows 0)\<lparr>steps := [\<lparr>type = ''resize-width-if-larger'', params = [Num 250]\<rparr>]\<rparr>"
    and a3: "length (stored (snd (createOrNavigateToFlow ''u1'' Found ''resize 250'' [\<lparr>type = ''resize-width-if-larger'', params = [Num 250]\<rparr>] twoFlows))) =
       length (collection twoFlows)"
    by blast+
  from th2 f2 have b1: "fst (createOrNavigateToFlow ''u1'' Found ''Holiday'' defaultSteps twoFlows) = Inr (nextRef twoFlows)"
    and b2: "stored (snd (createOrNavigateToFlow ''u1'' Found ''Holiday'' defaultSteps twoFlows)) =
      collection twoFlows @
      [\<lparr>flow_id = ''u1'', name = (if ''Holiday'' = [] then ''Untitled flow'' else ''Holiday''), steps = defaultSteps\<rparr>]"
    by blast+
  from h1 a1 a2 a3 b1 b2 show ?thesis
    by (simp add: c n z)
qed

lemma empty_title_config:
  "determineFlowConfiguration
     \<lparr>fileCount = 1, fileNames = None, title = Some ''Holiday'', url = Some ''web+wami:///''\<rparr> =
   Inr ([], defaultSteps)"
  by code_simp

text \<open>
  C5, as stated, fails: the URI \<open>web+wami:///\<close> resolves to the empty title, no flow has
  that name, and the flow that is created is named \<open>Untitled flow\<close>, not by the title.
\<close>

theorem createOrNavigateToFlow_empty_title:
  "determineFlowConfiguration
     \<lparr>fileCount = 1, fileNames = None, title = Some ''Holiday'', url = Some ''web+wami:///''\<rparr> =
   Inr ([], defaultSteps) \<and>
   List.find (\<lambda>r. name (heap twoFlows r) = []) (flows twoFlows) = None \<and>
   fst (createOrNavigateToFlow ''u1'' Found [] defaultSteps twoFlows) = Inr 2 \<and>
   map name (stored (snd (createOrNavigateToFlow ''u1'' Found [] defaultSteps twoFlows))) =
     [''resize 250'', ''Sepia'', ''Untitled flow''] \<and>
   name (heap (snd (createOrNavigateToFlow ''u1'' Found [] defaultSteps twoFlows)) 2) \<noteq> []"
  using empty_title_config
  by (simp add: createOrNavigateToFlow_def createNewFlow_def saveFlows_def collection_def Let_def
      navigateToFlow_def navigateToHome_def twoFlows_def emptySession_def)

text \<open>Flow resolution keeps the references of the collection allocated.\<close>

lemma set_assignAt: "set (assignAt xs i v) \<subseteq> insert v (set xs)"
  by (cases i) (auto simp: assignAt_def dest: subsetD [OF set_update_subset_insert])

lemma createOrNavigateToFlow_allocated:
  assumes "\<forall>r\<in>set (flows s). r < nextRef s"
  shows "\<forall>r\<in>set (flows (snd (createOrNavigateToFlow uid selected t st s))).
           r < nextRef (snd (createOrNavigateToFlow uid selected t st s))"
proof (cases "List.find (\<lambda>r. name (heap s r) = t) (flows s)")
  case None
  with assms show ?thesis
    by (auto simp: createOrNavigateToFlow_def createNewFlow_def saveFlows_def Let_def
        after_navigation less_Suc_eq)
next
  case (Some e)
  from find_Some_in_set [OF Some] have e: "e \<in> set (flows s)" by simp
  have "set (assignAt (flows s) i e) \<subseteq> set (flows s)" for i
    using set_assignAt [of "flows s" i e] e by auto
  with assms Some show ?thesis
    by (auto simp: createOrNavigateToFlow_def saveFlows_def Let_def after_navigation)
qed

section \<open>Properties: the shared images\<close>

lemma map_filter_as_map:
  "List.map_filter (\<lambda>i. map_option (g i) (c i)) xs =
     map (\<lambda>i. g i (the (c i))) (filter (\<lambda>i. c i \<noteq> None) xs)"
  by (induction xs) (auto simp: List.map_filter_simps split: option.splits)

text \<open>
  C9, as the code has it. The loaded images are, in index order, one for each index below
  \<open>fileCount\<close> whose blob is in the cache. The image of index \<open>i\<close> is named
  \<open>fileNames[i]\<close> when that entry is there and is not the empty string, and else
  \<open>shared-<i+1>.<ext>\<close>, the extension taken from the table of five image types, \<open>jpg\<close>
  for any other type. Its write handle resolves to absent.
\<close>

theorem shared_images_named:
  "imagesToStore shareCache shareData =
     map (\<lambda>i. sharedImage shareData i (the (shareCache (fileKey i))))
       (filter (\<lambda>i. shareCache (fileKey i) \<noteq> None) [0..<nat (fileCount shareData)]) \<and>
   (\<forall>i fileResponse.
      fsHandlePromise (sharedImage shareData i fileResponse) = None \<and>
      file_name (file_in (sharedImage shareData i fileResponse)) =
        Some (if (\<exists>ns. fileNames shareData = Some ns \<and> i < length ns \<and> ns ! i \<noteq> [])
              then the (fileNames shareData) ! i
              else ''shared-'' @ digits (i + 1) @ ''.'' @ getFileExtension (blobType fileResponse))) \<and>
   (\<forall>mimeType.
      getFileExtension mimeType =
        (if mimeType = ''image/jpeg'' then ''jpg'' else if mimeType = ''image/png'' then ''png''
         else if mimeType = ''image/gif'' then ''gif'' else if mimeType = ''image/webp'' then ''webp''
         else if mimeType = ''image/svg+xml'' then ''svg'' else ''jpg''))"
proof (intro conjI allI)
  show "imagesToStore shareCache shareData =
     map (\<lambda>i. sharedImage shareData i (the (shareCache (fileKey i))))
       (filter (\<lambda>i. shareCache (fileKey i) \<noteq> None) [0..<nat (fileCount shareData)])"
    unfolding imagesToStore_def by (rule map_filter_as_map)
next
  fix i fileResponse
  show "fsHandlePromise (sharedImage shareData i fileResponse) = None"
    by (simp add: sharedImage_def Let_def)
  show "file_name (file_in (sharedImage shareData i fileResponse)) =
        Some (if (\<exists>ns. fileNames shareData = Some ns \<and> i < length ns \<and> ns ! i \<noteq> [])
              then the (fileNames shareData) ! i
              else ''shared-'' @ digits (i + 1) @ ''.'' @ getFileExtension (blobType fileResponse))"
    by (auto simp: sharedImage_def Let_def at_def split: option.splits)
next
  fix mimeType
  show "getFileExtension mimeType =
        (if mimeType = ''image/jpeg'' then ''jpg'' else if mimeType = ''image/png'' then ''png''
         else if mimeType = ''image/gif'' then ''gif'' else if mimeType = ''image/webp'' then ''webp''
         else if mimeType = ''image/svg+xml'' then ''svg'' else ''jpg'')"
    by (simp add: getFileExtension_def)
qed

text \<open>
  The manifest with \<open>cat.png\<close> and one blob gives one image of that name; without names,
  and a second blob missing, the one image is \<open>shared-1.png\<close>.
\<close>

theorem shared_images_witness:
  "map (\<lambda>i. file_name (file_in i)) (imagesToStore oneBlobCache catManifest) = [Some ''cat.png''] \<and>
   map fsHandlePromise (imagesToStore oneBlobCache catManifest) = [None] \<and>
   map (\<lambda>i. file_name (file_in i))
     (imagesToStore oneBlobCache (catManifest\<lparr>fileCount := 2, fileNames := None\<rparr>)) = [Some ''shared-1.png'']"
proof -
  let ?m2 = "catManifest\<lparr>fileCount := 2, fileNames := None\<rparr>"
  note th1 = shared_images_named [of oneBlobCache catManifest]
  note th2 = shared_images_named [of oneBlobCache ?m2]
  have k1: "[0..<nat (fileCount catManifest)] = [0]"
    by (simp add: catManifest_def)
  have k2: "[0..<nat (fileCount ?m2)] = [0, Suc 0]"
    by (simp add: catManifest_def upt_rec)
  have c0: "oneBlobCache (fileKey 0) = Some pngResponse" and c1: "oneBlobCache (fileKey (Suc 0)) = None"
    by (simp_all add: oneBlobCache_def fileKey_0 fileKey_1)
  from th1 have "imagesToStore oneBlobCache catManifest =
     map (\<lambda>i. sharedImage catManifest i (the (oneBlobCache (fileKey i))))
       (filter (\<lambda>i. oneBlobCache (fileKey i) \<noteq> None) [0..<nat (fileCount catManifest)])"
    by blast
  then have i1: "imagesToStore oneBlobCache catManifest = [sharedImage catManifest 0 pngResponse]"
    unfolding k1 by (simp add: c0)
  from th2 have "imagesToStore oneBlobCache ?m2 =
     map (\<lambda>i. sharedImage ?m2 i (the (oneBlobCache (fileKey i))))
       (filter (\<lambda>i. oneBlobCache (fileKey i) \<noteq> None) [0..<nat (fileCount ?m2)])"
    by blast
  then have i2: "imagesToStore oneBlobCache ?m2 = [sharedImage ?m2 0 pngResponse]"
    unfolding k2 by (simp add: c0 c1)
  have e1: "\<exists>ns. fileNames catManifest = Some ns \<and> 0 < length ns \<and> ns ! 0 \<noteq> []"
    by (simp add: catManifest_def)
  have e2: "\<not> (\<exists>ns. fileNames ?m2 = Some ns \<and> 0 < length ns \<and> ns ! 0 \<noteq> [])"
    by simp
  from th1 have "file_name (file_in (sharedImage catManifest 0 pngResponse)) =
        Some (if (\<exists>ns. fileNames catManifest = Some ns \<and> 0 < length ns \<and> ns ! 0 \<noteq> [])
              then the (fileNames catManifest) ! 0
              else ''shared-'' @ digits (0 + 1) @ ''.'' @ getFileExtension (blobType pngResponse))"
    by blast
  with e1 have n1: "file_name (file_in (sharedImage catManifest 0 pngResponse)) = Some ''cat.png''"
    by (simp add: catManifest_def)
  from th1 have p1: "fsHandlePromise (sharedImage catManifest 0 pngResponse) = None"
    by blast
  from th2 have "file_name (file_in (sharedImage ?m2 0 pngResponse)) =
        Some (if (\<exists>ns. fileNames ?m2 = Some ns \<and> 0 < length ns \<and> ns ! 0 \<noteq> [])
              then the (fileNames ?m2) ! 0
              else ''shared-'' @ digits (0 + 1) @ ''.'' @ getFileExtension (blobType pngResponse))"
    by blast
  with e2 have n2: "file_name (file_in (sharedImage ?m2 0 pngResponse)) =
      Some (''shared-'' @ digits (0 + 1) @ ''.'' @ getFileExtension (blobType pngResponse))"
    by (simp only: if_False)
  from th2 have "getFileExtension ''image/png'' =
        (if ''image/png'' = ''image/jpeg'' then ''jpg'' else if ''image/png'' = ''image/png'' then ''png''
         else if ''image/png'' = ''image/gif'' then ''gif'' else if ''image/png'' = ''image/webp'' then ''webp''
         else if ''image/png'' = ''image/svg+xml'' then ''svg'' else ''jpg'')"
    by blast
  then have x: "getFileExtension ''image/png'' = ''png''"
    by simp
  have t: "blobType pngResponse = ''image/png''"
    by (simp add: pngResponse_def)
  from n2 have n2': "file_name (file_in (sharedImage ?m2 0 pngResponse)) = Some ''shared-1.png''"
    by (simp add: t x digits.simps)
  from i1 i2 n1 p1 n2' show ?thesis
    by simp
qed

text \<open>
  C9, as stated, fails: an entry of \<open>fileNames\<close> that is there and is the empty string
  does not name the image; the generated name does.
\<close>

theorem shared_image_empty_name:
  "at (the (fileNames (catManifest\<lparr>fileNames := Some [[]]\<rparr>))) 0 = Some [] \<and>
   map (\<lambda>i. file_name (file_in i)) (imagesToStore oneBlobCache (catManifest\<lparr>fileNames := Some [[]]\<rparr>)) =
     [Some ''shared-1.png'']"
  by (simp add: imagesToStore_def sharedImage_def Let_def at_def
      catManifest_def oneBlobCache_def pngResponse_def getFileExtension_def fileKey_0 digits.simps upt_rec)

section \<open>Properties: saving in place\<close>

lemma saveLoop_writes:
  "snd (saveLoop grant ins outs w) =
     w @ map (\<lambda>out. (the (targetHandle grant ins out), blob out))
           (takeWhile (\<lambda>out. targetHandle grant ins out \<noteq> None) outs)"
  by (induction outs arbitrary: w) (auto simp: targetHandle_def split: option.splits)

lemma saveLoop_completes:
  "fst (saveLoop grant ins outs w) = None \<longleftrightarrow> list_all (\<lambda>out. targetHandle grant ins out \<noteq> None) outs"
  by (induction outs arbitrary: w) (auto simp: targetHandle_def split: option.splits)

text \<open>
  What the save handler does: it writes nothing unless the input and output batches have
  equal length. With equal length the outputs are written in order, each to the handle
  of the first input of its name, up to the first output that has no such input or
  whose input's handle is absent or refused; there the handler throws, and the writes
  before it stay.
\<close>

lemma save_writes_until_first_failure:
  "written (snd (saveImagesButton_click grant s)) =
     written s @
     (if length (currentImages s) = length (outputImages s)
      then map (\<lambda>out. (the (targetHandle grant (currentImages s) out), blob out))
             (takeWhile (\<lambda>out. targetHandle grant (currentImages s) out \<noteq> None) (outputImages s))
      else []) \<and>
   (fst (saveImagesButton_click grant s) = None \<longleftrightarrow>
      length (currentImages s) \<noteq> length (outputImages s) \<or>
      list_all (\<lambda>out. targetHandle grant (currentImages s) out \<noteq> None) (outputImages s))"
proof -
  have w: "written (snd (saveImagesButton_click grant s)) =
     (if outputImages s \<noteq> [] \<and> length (currentImages s) = length (outputImages s)
      then snd (saveLoop grant (currentImages s) (outputImages s) (written s))
      else written s)"
    by (simp add: saveImagesButton_click_def split: prod.splits)
  have e: "fst (saveImagesButton_click grant s) =
     (if outputImages s \<noteq> [] \<and> length (currentImages s) = length (outputImages s)
      then fst (saveLoop grant (currentImages s) (outputImages s) (written s))
      else None)"
    by (simp add: saveImagesButton_click_def split: prod.splits)
  show ?thesis
    by (cases "outputImages s = []") (auto simp: w e saveLoop_writes saveLoop_completes)
qed

text \<open>
  Two inputs, the first with handle 7: of two outputs the first is written; with one
  output for the two inputs nothing is.
\<close>

lemma save_writes_example:
  "written (snd (saveImagesButton_click (\<lambda>h. True) halfWritable)) =
     [(7, Blob None ''image/png'' [3])] \<and>
   fst (saveImagesButton_click (\<lambda>h. True) halfWritable) \<noteq> None \<and>
   written (snd (saveImagesButton_click (\<lambda>h. True)
     (halfWritable\<lparr>outputImages := [\<lparr>blob = Blob None ''image/png'' [3], name_out = ''a.png''\<rparr>]\<rparr>))) = []"
proof -
  let ?one = "halfWritable\<lparr>outputImages := [\<lparr>blob = Blob None ''image/png'' [3], name_out = ''a.png''\<rparr>]\<rparr>"
  note th1 = save_writes_until_first_failure [of "\<lambda>h. True" halfWritable]
  note th2 = save_writes_until_first_failure [of "\<lambda>h. True" ?one]
  have t1: "targetHandle (\<lambda>h. True) (currentImages halfWritable)
              \<lparr>blob = Blob None ''image/png'' [3], name_out = ''a.png''\<rparr> = Some 7"
    and t2: "targetHandle (\<lambda>h. True) (currentImages halfWritable)
              \<lparr>blob = Blob None ''image/png'' [4], name_out = ''b.png''\<rparr> = None"
    by (simp_all add: targetHandle_def halfWritable_def emptySession_def)
  have o: "outputImages halfWritable =
          [\<lparr>blob = Blob None ''image/png'' [3], name_out = ''a.png''\<rparr>,
           \<lparr>blob = Blob None ''image/png'' [4], name_out = ''b.png''\<rparr>]"
    and l: "length (currentImages halfWritable) = 2" and w: "written halfWritable = []"
    by (simp_all add: halfWritable_def emptySession_def)
  from th1 have a: "written (snd (saveImagesButton_click (\<lambda>h. True) halfWritable)) =
     [(7, Blob None ''image/png'' [3])]"
    by (simp add: o l w t1 t2)
  from th1 have b: "fst (saveImagesButton_click (\<lambda>h. True) halfWritable) \<noteq> None"
    by (simp add: o l t1 t2)
  from th2 have c: "written (snd (saveImagesButton_click (\<lambda>h. True) ?one)) = []"
    by (simp add: l w)
  from a b c show ?thesis by simp
qed

text \<open>
  C3. The save is to write no bytes unless the batches have equal length and every
  output's name is the file name of an input whose handle is present; failing that it
  is to do nothing. The handler tests the lengths only, and the comment above the test
  says that images without a handle make it bail out. Below the second input has no
  handle, so the precondition fails; the handler writes the first output and then
  throws \<open>TypeError\<close> on the absent handle.
\<close>

theorem save_writes_then_throws:
  "\<not> canSaveInPlace (currentImages halfWritable) (outputImages halfWritable) \<and>
   written halfWritable = [] \<and>
   written (snd (saveImagesButton_click (\<lambda>h. True) halfWritable)) =
     [(7, Blob None ''image/png'' [3])] \<and>
   fst (saveImagesButton_click (\<lambda>h. True) halfWritable) = Some TypeError"
  by (simp add: canSaveInPlace_def saveImagesButton_click_def halfWritable_def emptySession_def)

section \<open>Properties: the run\<close>

text \<open>The guard the code has: a click on the disabled button is lost.\<close>

lemma dispatchRunClick_disabled: "runDisabled (sess a) \<Longrightarrow> dispatchRunClick a = a"
  by (simp add: dispatchRunClick_def)

lemma runFlowButton_click_Awaiting:
  "runFlowButton_click s = (Awaiting f fs, s1) \<Longrightarrow> runDisabled s1"
  by (auto simp: runFlowButton_click_def Let_def split: if_splits prod.splits option.splits)





section \<open>Properties: viewing the images\<close>

lemma mset_insertSorted: "mset (insertSorted lc key x ys) = add_mset x (mset ys)"
  by (induction ys) auto

lemma mset_sortByName: "mset (sortByName lc key xs) = mset xs"
  by (induction xs) (auto simp: sortByName_def mset_insertSorted)

lemma set_insertSorted: "set (insertSorted lc key x ys) = insert x (set ys)"
  by (induction ys) auto

lemma sorted_insertSorted:
  assumes "consistent lc" and "sorted_wrt (\<lambda>a b. lc (key a) (key b) \<le> 0) ys"
  shows "sorted_wrt (\<lambda>a b. lc (key a) (key b) \<le> 0) (insertSorted lc key x ys)"
  using assms(2)
proof (induction ys)
  case Nil
  then show ?case by simp
next
  case (Cons y ys)
  from assms(1) have total: "\<And>a b. lc a b \<le> 0 \<or> lc b a \<le> 0"
    and trans: "\<And>a b c. lc a b \<le> 0 \<Longrightarrow> lc b c \<le> 0 \<Longrightarrow> lc a c \<le> 0"
    unfolding consistent_def by blast+
  show ?case
  proof (cases "lc (key x) (key y) \<le> 0")
    case True
    with Cons.prems trans show ?thesis by auto
  next
    case False
    with total have "lc (key y) (key x) \<le> 0" by blast
    with False Cons show ?thesis by (auto simp: set_insertSorted)
  qed
qed

lemma sorted_sortByName:
  "consistent lc \<Longrightarrow> sorted_wrt (\<lambda>a b. lc (key a) (key b) \<le> 0) (sortByName lc key xs)"
  by (induction xs) (auto simp: sortByName_def sorted_insertSorted)

text \<open>The sort is stable: names that compare as equal keep their order.\<close>

lemma filter_insertSorted:
  assumes "consistent lc"
  shows "filter (\<lambda>y. lc (key y) k \<le> 0 \<and> lc k (key y) \<le> 0) (insertSorted lc key x ys) =
         filter (\<lambda>y. lc (key y) k \<le> 0 \<and> lc k (key y) \<le> 0) (x # ys)"
proof (induction ys)
  case Nil
  then show ?case by simp
next
  case (Cons y ys)
  from assms have trans: "\<And>a b c. lc a b \<le> 0 \<Longrightarrow> lc b c \<le> 0 \<Longrightarrow> lc a c \<le> 0"
    unfolding consistent_def by blast
  show ?case
  proof (cases "lc (key x) (key y) \<le> 0")
    case True
    then show ?thesis by simp
  next
    case False
    with trans have "\<not> (lc (key x) k \<le> 0 \<and> lc k (key y) \<le> 0)" by blast
    with False Cons show ?thesis by auto
  qed
qed

lemma sortByName_stable:
  assumes "consistent lc"
  shows "filter (\<lambda>y. lc (key y) k \<le> 0 \<and> lc k (key y) \<le> 0) (sortByName lc key xs) =
         filter (\<lambda>y. lc (key y) k \<le> 0 \<and> lc k (key y) \<le> 0) xs"
proof (induction xs)
  case Nil
  then show ?case by (simp add: sortByName_def)
next
  case (Cons x xs)
  have "sortByName lc key (x # xs) = insertSorted lc key x (sortByName lc key xs)"
    by (simp add: sortByName_def)
  with filter_insertSorted [OF assms, of key k x "sortByName lc key xs"] Cons show ?case
    by simp
qed

lemma withFileName_named:
  "withFileName i = Some i' \<Longrightarrow> fileNameOf i \<noteq> [] \<Longrightarrow> i' = i"
  by (auto simp: withFileName_def fileNameOf_def split: option.splits js_file.splits if_splits)

lemma fileArguments_positions:
  "fileArguments imgs = (None, imgs') \<Longrightarrow>
     length imgs' = length imgs \<and> (\<forall>k<length imgs. withFileName (imgs ! k) = Some (imgs' ! k))"
proof (induction imgs arbitrary: imgs')
  case Nil
  then show ?case by simp
next
  case (Cons i rest)
  from Cons.prems obtain i' rest' where w: "withFileName i = Some i'"
    and r: "fileArguments rest = (None, rest')" and e: "imgs' = i' # rest'"
    by (auto split: option.splits prod.splits)
  from Cons.IH [OF r] w e show ?case
    by (auto simp: nth_Cons split: nat.splits)
qed

text \<open>
  C10. A view that has outputs to show, and whose comparator reads a name from every
  file it is given (no nameless file among two or more inputs), leaves both lists sorted by
  name under \<open>localeCompare\<close>, each a rearrangement of what it was: the outputs by
  their names, the current input images by their files' names. A run started then
  passes the engine the files in that sorted order, whatever the order of loading; only
  a file whose name is empty is renamed on the way.
\<close>

theorem view_sorts_inputs_in_place:
  assumes "consistent localeCompare"
    and "outputImages s \<noteq> []"
    and "\<not> (2 \<le> length (currentImages s) \<and>
            list_ex (\<lambda>i. file_name (file_in i) = None) (currentImages s))"
  shows "fst (viewImagesButton_click localeCompare engineSort s) = None \<and>
         currentImages (snd (viewImagesButton_click localeCompare engineSort s)) =
           sortByName localeCompare fileNameOf (currentImages s) \<and>
         sorted_wrt (\<lambda>a b. localeCompare (fileNameOf a) (fileNameOf b) \<le> 0)
           (currentImages (snd (viewImagesButton_click localeCompare engineSort s))) \<and>
         mset (currentImages (snd (viewImagesButton_click localeCompare engineSort s))) = mset (currentImages s) \<and>
         sorted_wrt (\<lambda>a b. localeCompare (name_out a) (name_out b) \<le> 0)
           (outputImages (snd (viewImagesButton_click localeCompare engineSort s))) \<and>
         mset (outputImages (snd (viewImagesButton_click localeCompare engineSort s))) = mset (outputImages s) \<and>
         (\<forall>f fs s'.
            runFlowButton_click (snd (viewImagesButton_click localeCompare engineSort s)) = (Awaiting f fs, s') \<longrightarrow>
              length fs = length (currentImages s) \<and>
              (\<forall>k<length fs.
                 fileNameOf (sortByName localeCompare fileNameOf (currentImages s) ! k) \<noteq> [] \<longrightarrow>
                 fs ! k = file_in (sortByName localeCompare fileNameOf (currentImages s) ! k)))"
proof -
  define sorted where "sorted = sortByName localeCompare fileNameOf (currentImages s)"
  have v: "snd (viewImagesButton_click localeCompare engineSort s) =
      s\<lparr>outputImages := sortByName localeCompare name_out (outputImages s), currentImages := sorted\<rparr>"
    using assms(2,3) by (auto simp: viewImagesButton_click_def Let_def sorted_def split: if_splits)
  have e: "fst (viewImagesButton_click localeCompare engineSort s) = None"
    using assms(2,3) by (auto simp: viewImagesButton_click_def Let_def)
  have len: "length sorted = length (currentImages s)"
    using mset_sortByName [of localeCompare fileNameOf "currentImages s"]
    by (metis sorted_def size_mset)
  have run: "length fs = length (currentImages s) \<and>
              (\<forall>k<length fs. fileNameOf (sorted ! k) \<noteq> [] \<longrightarrow> fs ! k = file_in (sorted ! k))"
    if "runFlowButton_click (snd (viewImagesButton_click localeCompare engineSort s)) = (Awaiting f fs, s')"
    for f fs s'
  proof -
    from that obtain imgs where a: "fileArguments sorted = (None, imgs)" and fs: "fs = map file_in imgs"
      by (auto simp: v runFlowButton_click_def Let_def split: if_splits prod.splits option.splits)
    from fileArguments_positions [OF a] have l: "length imgs = length sorted"
      and p: "\<forall>k<length sorted. withFileName (sorted ! k) = Some (imgs ! k)" by simp_all
    show ?thesis
    proof (intro conjI allI impI)
      show "length fs = length (currentImages s)" using fs l len by simp
    next
      fix k assume k: "k < length fs" and n: "fileNameOf (sorted ! k) \<noteq> []"
      from k fs l have "k < length sorted" by simp
      with p have "withFileName (sorted ! k) = Some (imgs ! k)" by simp
      from withFileName_named [OF this n] k fs show "fs ! k = file_in (sorted ! k)" by simp
    qed
  qed
  show ?thesis
    using assms(1) run e
    by (simp add: v sorted_def [symmetric] mset_sortByName sorted_sortByName)
       (simp add: sorted_def mset_sortByName sorted_sortByName)
qed


lemma consistent_byLength: "consistent byLength"
  by (simp add: consistent_def byLength_def) arith

text \<open>Loaded as \<open>bb.png\<close>, \<open>a.png\<close>; viewed; the run then gets \<open>a.png\<close> first.\<close>

theorem view_sorts_witness:
  "outputImages twoOutputs \<noteq> [] \<and>
   map fileNameOf (currentImages twoOutputs) = [''bb.png'', ''a.png''] \<and>
   map fileNameOf (currentImages (snd (viewImagesButton_click byLength (False, []) twoOutputs))) =
     [''a.png'', ''bb.png''] \<and>
   map name_out (outputImages (snd (viewImagesButton_click byLength (False, []) twoOutputs))) =
     [''a.png'', ''bb.png''] \<and>
   fst (runFlowButton_click (snd (viewImagesButton_click byLength (False, []) twoOutputs))) =
     Awaiting None [File ''a.png'' ''image/png'' [1], File ''bb.png'' ''image/png'' [2]]"
proof -
  have h2: "outputImages twoOutputs \<noteq> []"
    by (simp add: twoOutputs_def twoImages_def emptySession_def)
  have h3: "\<not> (2 \<le> length (currentImages twoOutputs) \<and>
              list_ex (\<lambda>i. file_name (file_in i) = None) (currentImages twoOutputs))"
    by (simp add: twoOutputs_def twoImages_def emptySession_def)
  have c: "currentImages twoOutputs =
          [\<lparr>file_in = File ''bb.png'' ''image/png'' [2], name_in = None, fsHandlePromise = None\<rparr>,
           \<lparr>file_in = File ''a.png'' ''image/png'' [1], name_in = None, fsHandlePromise = None\<rparr>]"
    by (simp add: twoOutputs_def twoImages_def emptySession_def)
  have srt: "sortByName byLength fileNameOf (currentImages twoOutputs) =
          [\<lparr>file_in = File ''a.png'' ''image/png'' [1], name_in = None, fsHandlePromise = None\<rparr>,
           \<lparr>file_in = File ''bb.png'' ''image/png'' [2], name_in = None, fsHandlePromise = None\<rparr>]"
    by (simp add: c sortByName_def fileNameOf_def byLength_def)
  note th = view_sorts_inputs_in_place [OF consistent_byLength h2 h3]
  from th have cur: "currentImages (snd (viewImagesButton_click byLength (False, []) twoOutputs)) =
      sortByName byLength fileNameOf (currentImages twoOutputs)"
    by blast
  have out: "map name_out (outputImages (snd (viewImagesButton_click byLength (False, []) twoOutputs))) =
     [''a.png'', ''bb.png'']"
    by (simp add: viewImagesButton_click_def Let_def twoOutputs_def twoImages_def emptySession_def
        sortByName_def byLength_def)
  have flow: "currentFlow (snd (viewImagesButton_click byLength (False, []) twoOutputs)) = None"
    by (simp add: viewImagesButton_click_def Let_def twoOutputs_def twoImages_def emptySession_def)
  have run: "fst (runFlowButton_click (snd (viewImagesButton_click byLength (False, []) twoOutputs))) =
     Awaiting None [File ''a.png'' ''image/png'' [1], File ''bb.png'' ''image/png'' [2]]"
    by (simp add: runFlowButton_click_def Let_def cur srt flow withFileName_def)
  from h2 c cur srt out run show ?thesis
    by (simp add: fileNameOf_def)
qed

end
